theory Spec2Isabelle
  imports Main "HOL-Library.Sublist" "HOL-Library.Char_ord" "HOL-Library.List_Lexorder"
begin

section \<open>Values, exceptions and effects\<close>

text \<open>
  The orchestration module \<^verbatim>\<open>qobuz_dl/core.py\<close> works on decoded JSON answers of
  the catalog service, raises and catches Python exceptions, and acts on the outside
  world (catalog client, downloader, ledger, file system, log).

  \<^item> A decoded JSON value is a \<open>json\<close>. A dictionary is an association list read with
    \<open>map_of\<close>. JSON numbers are integers here; floating-point numbers are not modelled.
  \<^item> An exception is a value of \<open>py_error\<close>; a function that may raise returns
    \<open>py_error + 'a\<close> (\<open>Inl\<close> the exception), a procedure returns \<open>py_error option\<close>
    together with the state it leaves behind.
  \<^item> The state is the download ledger (\<open>None\<close> when no database is configured) and the
    trace of the calls made to the outside world, in the order they were made.
  \<^item> Strings are byte strings; the character classes of regular expressions are the
    ASCII ones.
\<close>

datatype json =
    JNull
  | JBool bool
  | JInt int
  | JStr string
  | JList "json list"
  | JDict "(string \<times> json) list"

datatype py_error =
    KeyError
  | IndexError
  | TypeError
  | AttributeError
  | ValueError
  | RecursionError
  | RequestException
  | NonStreamable
  | OtherError

datatype log_msg =
    AlreadyDownloaded json
  | ErrorGettingRelease py_error
  | InvalidUrl string
  | DownloadingAll json string
  | DownloadsInQueue nat
  | NothingToDownload
  | InvalidTextFile py_error
  | WillDownloadFromFile nat string
  | QueryTooShort
  | InvalidType string
  | PlaylistDownloadFailed py_error
  | NothingFound
  | DownloadingPlaylist string nat

datatype meta_func = get_plist_meta | get_artist_meta | get_label_meta

datatype event =
    Log log_msg
  | Fetch json string bool
  | LedgerInsert json
  | MetaCall meta_func string
  | SearchCall string string int
  | HttpGet string
  | MakeDirs string
  | WriteFile string string

record state =
  ledger :: "json set option"
  trace :: "event list"

definition emit :: "event \<Rightarrow> state \<Rightarrow> state" where
  "emit e s = s\<lparr>trace := trace s @ [e]\<rparr>"

text \<open>Python truth value of a decoded JSON value (\<^verbatim>\<open>not value\<close> is its negation).\<close>

fun truthy :: "json \<Rightarrow> bool" where
  "truthy JNull = False"
| "truthy (JBool b) = b"
| "truthy (JInt i) = (i \<noteq> 0)"
| "truthy (JStr s) = (s \<noteq> [])"
| "truthy (JList xs) = (xs \<noteq> [])"
| "truthy (JDict kvs) = (kvs \<noteq> [])"

text \<open>\<^verbatim>\<open>obj[key]\<close> with a string key: only a dictionary can be indexed this way.\<close>

fun getitem :: "json \<Rightarrow> string \<Rightarrow> py_error + json" where
  "getitem (JDict kvs) k = (case map_of kvs k of None \<Rightarrow> Inl KeyError | Some v \<Rightarrow> Inr v)"
| "getitem v k = Inl TypeError"

text \<open>\<^verbatim>\<open>len(obj)\<close> and iteration over \<^verbatim>\<open>obj\<close>.\<close>

fun py_len :: "json \<Rightarrow> py_error + nat" where
  "py_len (JList xs) = Inr (length xs)"
| "py_len (JStr s) = Inr (length s)"
| "py_len (JDict kvs) = Inr (length kvs)"
| "py_len v = Inl TypeError"

fun py_iter :: "json \<Rightarrow> py_error + json list" where
  "py_iter (JList xs) = Inr xs"
| "py_iter (JStr s) = Inr (map (\<lambda>c. JStr [c]) s)"
| "py_iter (JDict kvs) = Inr (map (\<lambda>kv. JStr (fst kv)) kvs)"
| "py_iter v = Inl TypeError"

text \<open>\<^verbatim>\<open>needle in haystack\<close> on strings, \<^verbatim>\<open>sep.join(parts)\<close> and \<^verbatim>\<open>s.split(c)\<close>.\<close>

fun contains_str :: "string \<Rightarrow> string \<Rightarrow> bool" where
  "contains_str needle [] = (needle = [])"
| "contains_str needle (c # cs) = (prefix needle (c # cs) \<or> contains_str needle cs)"

fun str_join :: "string \<Rightarrow> string list \<Rightarrow> string" where
  "str_join sep [] = []"
| "str_join sep [x] = x"
| "str_join sep (x # y # ys) = x @ sep @ str_join sep (y # ys)"

function split_on :: "char \<Rightarrow> string \<Rightarrow> string list" where
  "split_on c s =
     (case dropWhile (\<lambda>x. x \<noteq> c) s of
        [] \<Rightarrow> [s]
      | sep # rest \<Rightarrow> takeWhile (\<lambda>x. x \<noteq> c) s # split_on c rest)"
  by pat_completeness auto
termination
proof (relation "measure (\<lambda>(c, s). length s)")
  fix c :: char and s sep rest
  assume "dropWhile (\<lambda>x. x \<noteq> c) s = sep # rest"
  then have "length rest < length (dropWhile (\<lambda>x. x \<noteq> c) s)"
    by simp
  also have "\<dots> \<le> length s"
    by (rule length_dropWhile_le)
  finally show "((c, rest), (c, s)) \<in> measure (\<lambda>(c, s). length s)"
    by simp
qed simp

declare split_on.simps [simp del]

text \<open>Indexing a list: \<^verbatim>\<open>xs[i]\<close> raises \<^verbatim>\<open>IndexError\<close> out of range, \<^verbatim>\<open>xs[-1]\<close> is the last element.\<close>

definition index :: "'a list \<Rightarrow> nat \<Rightarrow> py_error + 'a" where
  "index xs i = (if i < length xs then Inr (xs ! i) else Inl IndexError)"

definition index_last :: "'a list \<Rightarrow> py_error + 'a" where
  "index_last xs = (if xs = [] then Inl IndexError else Inr (last xs))"

text \<open>Sequencing of computations that may raise.\<close>

definition and_then :: "py_error + 'a \<Rightarrow> ('a \<Rightarrow> py_error + 'b) \<Rightarrow> py_error + 'b" where
  "and_then m f = (case m of Inl e \<Rightarrow> Inl e | Inr v \<Rightarrow> f v)"

fun map_err :: "('a \<Rightarrow> py_error + 'b) \<Rightarrow> 'a list \<Rightarrow> py_error + 'b list" where
  "map_err f [] = Inr []"
| "map_err f (x # xs) =
     (case f x of
        Inl e \<Rightarrow> Inl e
      | Inr y \<Rightarrow> (case map_err f xs of Inl e \<Rightarrow> Inl e | Inr ys \<Rightarrow> Inr (y # ys)))"

text \<open>A \<^verbatim>\<open>for\<close> loop whose body acts on the state: the first exception ends it.\<close>

fun for_each ::
  "('a \<Rightarrow> state \<Rightarrow> py_error option \<times> state) \<Rightarrow> 'a list \<Rightarrow> state \<Rightarrow> py_error option \<times> state" where
  "for_each body [] s = (None, s)"
| "for_each body (x # xs) s =
     (case body x s of
        (None, s1) \<Rightarrow> for_each body xs s1
      | (Some e, s1) \<Rightarrow> (Some e, s1))"

text \<open>Decimal rendering of an integer, as \<^verbatim>\<open>"{}".format(n)\<close> gives it.\<close>

fun show_nat :: "nat \<Rightarrow> string" where
  "show_nat n =
     (if n < 10 then [char_of (48 + n)]
      else show_nat (n div 10) @ [char_of (48 + n mod 10)])"

declare show_nat.simps [simp del]

definition show_int :: "int \<Rightarrow> string" where
  "show_int i = (if i < 0 then CHR ''-'' # show_nat (nat (- i)) else show_nat (nat i))"

section \<open>Paths (\<^verbatim>\<open>posixpath\<close>)\<close>

text \<open>
  The functions of \<^verbatim>\<open>os.path\<close> that the module calls, as \<^verbatim>\<open>posixpath\<close> defines them:
  \<^verbatim>\<open>join\<close> of two paths, \<^verbatim>\<open>basename\<close>, \<^verbatim>\<open>normpath\<close>, \<^verbatim>\<open>abspath\<close> and the extension
  that \<^verbatim>\<open>splitext\<close> gives.
\<close>

definition join :: "string \<Rightarrow> string \<Rightarrow> string" where
  "join a b =
     (if prefix ''/'' b then b
      else if a = [] \<or> last a = CHR ''/'' then a @ b
      else a @ ''/'' @ b)"

definition basename :: "string \<Rightarrow> string" where
  "basename p = rev (takeWhile (\<lambda>c. c \<noteq> CHR ''/'') (rev p))"

definition norm_step :: "bool \<Rightarrow> string list \<Rightarrow> string \<Rightarrow> string list" where
  "norm_step initial_slashes new_comps part =
     (if part = [] \<or> part = ''.'' then new_comps
      else if part \<noteq> ''..'' \<or> (\<not> initial_slashes \<and> new_comps = [])
              \<or> (new_comps \<noteq> [] \<and> last new_comps = ''..'')
      then new_comps @ [part]
      else if new_comps \<noteq> [] then butlast new_comps
      else new_comps)"

definition normpath :: "string \<Rightarrow> string" where
  "normpath path =
     (if path = [] then ''.''
      else
        let initial_slashes =
              (if prefix ''/'' path
               then (if prefix ''//'' path \<and> \<not> prefix ''///'' path then 2 else 1)
               else (0::nat));
            comps = foldl (norm_step (initial_slashes \<noteq> 0)) [] (split_on CHR ''/'' path);
            p = replicate initial_slashes CHR ''/'' @ str_join ''/'' comps
        in if p = [] then ''.'' else p)"

definition abspath :: "string \<Rightarrow> string \<Rightarrow> string" where
  "abspath cwd_now path = normpath (if prefix ''/'' path then path else join cwd_now path)"

text \<open>
  \<^verbatim>\<open>os.path.splitext(p)[-1]\<close>: the text from the last dot of the last component on,
  unless only dots come before it in that component.
\<close>

definition splitext_ext :: "string \<Rightarrow> string" where
  "splitext_ext p =
     (let name = basename p;
          after_dot = rev (takeWhile (\<lambda>c. c \<noteq> CHR ''.'') (rev name));
          upto_dot = rev (dropWhile (\<lambda>c. c \<noteq> CHR ''.'') (rev name))
      in if upto_dot = [] then []
         else if list_all (\<lambda>c. c = CHR ''.'') (butlast upto_dot) then []
         else CHR ''.'' # after_dot)"

section \<open>Regular expressions (\<^verbatim>\<open>re.match\<close>)\<close>

text \<open>
  The fragment of Python's regular expressions that the two patterns of the module use.
  \<open>rmatch r s\<close> lists what is left of \<open>s\<close> after each way of matching \<open>r\<close> at its
  start, in the order the backtracking matcher tries them: the first alternative first,
  the longest repetition first. \<^verbatim>\<open>re.match\<close> takes the first way that lets the whole
  pattern match.
\<close>

datatype regex =
    Chars string
  | Word
  | Lower
  | Seq regex regex
  | Alt regex regex
  | Opt regex
  | Star regex
  | Plus regex
  | Rep nat nat regex

definition is_word :: "char \<Rightarrow> bool" where
  "is_word c \<longleftrightarrow>
     (CHR ''a'' \<le> c \<and> c \<le> CHR ''z'') \<or> (CHR ''A'' \<le> c \<and> c \<le> CHR ''Z'')
     \<or> (CHR ''0'' \<le> c \<and> c \<le> CHR ''9'') \<or> c = CHR ''_''"

definition is_lower :: "char \<Rightarrow> bool" where
  "is_lower c \<longleftrightarrow> CHR ''a'' \<le> c \<and> c \<le> CHR ''z''"

fun match_class :: "(char \<Rightarrow> bool) \<Rightarrow> string \<Rightarrow> string list" where
  "match_class p [] = []"
| "match_class p (c # cs) = (if p c then [cs] else [])"

fun match_star :: "(string \<Rightarrow> string list) \<Rightarrow> nat \<Rightarrow> string \<Rightarrow> string list" where
  "match_star m 0 s = [s]"
| "match_star m (Suc n) s =
     concat (map (match_star m n) (filter (\<lambda>t. length t < length s) (m s))) @ [s]"

fun match_rep :: "(string \<Rightarrow> string list) \<Rightarrow> nat \<Rightarrow> nat \<Rightarrow> string \<Rightarrow> string list" where
  "match_rep m lo 0 s = (if lo = 0 then [s] else [])"
| "match_rep m lo (Suc hi) s =
     concat (map (match_rep m (lo - 1) hi) (m s)) @ (if lo = 0 then [s] else [])"

fun rmatch :: "regex \<Rightarrow> string \<Rightarrow> string list" where
  "rmatch (Chars l) s = (if prefix l s then [drop (length l) s] else [])"
| "rmatch Word s = match_class is_word s"
| "rmatch Lower s = match_class is_lower s"
| "rmatch (Seq a b) s = concat (map (rmatch b) (rmatch a s))"
| "rmatch (Alt a b) s = rmatch a s @ rmatch b s"
| "rmatch (Opt a) s = rmatch a s @ [s]"
| "rmatch (Star a) s = match_star (rmatch a) (length s) s"
| "rmatch (Plus a) s = concat (map (\<lambda>t. match_star (rmatch a) (length t) t) (rmatch a s))"
| "rmatch (Rep lo hi a) s = match_rep (rmatch a) lo hi s"

text \<open>
  \<^verbatim>\<open>re.match(pre + "(" + grp + ")", s)\<close>: \<open>None\<close> when there is no match, else the text
  of the group.
\<close>

definition re_match_group :: "regex \<Rightarrow> regex \<Rightarrow> string \<Rightarrow> string option" where
  "re_match_group pre grp s =
     (case concat (map (\<lambda>t. map (\<lambda>u. take (length t - length u) t) (rmatch grp t)) (rmatch pre s)) of
        [] \<Rightarrow> None
      | g # gs \<Rightarrow> Some g)"

fun seqs :: "regex list \<Rightarrow> regex" where
  "seqs [] = Chars []"
| "seqs [r] = r"
| "seqs (r # rs) = Seq r (seqs rs)"

fun alts :: "regex list \<Rightarrow> regex" where
  "alts [] = Chars []"
| "alts [r] = r"
| "alts (r # rs) = Alt r (alts rs)"

section \<open>The external collaborators\<close>

text \<open>
  What the module calls but does not define is a field of the environment:
  \<^item> \<open>download_id_by_type\<close>: the downloader, by item id, destination and album flag
    (the client, the quality and the cover settings it is also given do not change
    during a run); \<open>None\<close> when it returns, \<open>Some e\<close> when it raises \<open>e\<close>;
  \<^item> \<open>get_meta\<close>: the catalog client's metadata generators (\<^verbatim>\<open>get_plist_meta\<close>,
    \<^verbatim>\<open>get_artist_meta\<close>, \<^verbatim>\<open>get_label_meta\<close>), by id, giving the pages they yield;
  \<^item> \<open>search\<close>: the catalog client's search calls, by type, query and limit;
  \<^item> \<open>builtin_format\<close>: Python's built-in \<^verbatim>\<open>format(value, spec)\<close>;
  \<^item> \<open>strftime_gmtime\<close>: \<^verbatim>\<open>time.strftime("%H:%M:%S", time.gmtime(duration))\<close>;
  \<^item> \<open>sanitize_filename\<close>: the function of that name of \<^verbatim>\<open>pathvalidate\<close>;
  \<^item> \<open>http_get\<close>: \<^verbatim>\<open>requests.get\<close> followed by the two selections and the heading
    lookup on the parsed page;
  \<^item> \<open>isfile\<close>, \<open>read_lines\<close>, \<open>tree_at\<close>, \<open>cwd\<close>: the file system as the module reads it;
  \<^item> \<open>read_audio\<close>: the tag readers \<^verbatim>\<open>EasyMP3\<close> (flag \<open>True\<close>) and \<^verbatim>\<open>FLAC\<close> (flag
    \<open>False\<close>), by absolute path.
  Creating a directory and writing the playlist file are recorded in the trace and
  taken to succeed.
\<close>

text \<open>
  A fetched page: the texts that \<^verbatim>\<open>ARTISTS_SELECTOR\<close> and \<^verbatim>\<open>TITLE_SELECTOR\<close> select, and the
  text of the first \<^verbatim>\<open>h1\<close> element, if there is one.
\<close>

record page =
  artists :: "string list"
  titles :: "string list"
  heading :: "string option"

text \<open>
  An opened audio file: the values of its tags \<^verbatim>\<open>TITLE\<close> and \<^verbatim>\<open>ARTIST\<close> (\<open>None\<close> for
  a tag it has not) and \<^verbatim>\<open>int(info.length)\<close> (\<open>None\<close> when that raises).
\<close>

record audio =
  TITLE :: "string list option"
  ARTIST :: "string list option"
  info_length :: "int option"

text \<open>A directory: the names of its files, and its sub-directories by name.\<close>

datatype dir_tree = Dir (files: "string list") (subdirs: "(string \<times> dir_tree) list")

record env =
  download_id_by_type :: "json \<Rightarrow> string \<Rightarrow> bool \<Rightarrow> py_error option"
  get_meta :: "meta_func \<Rightarrow> string \<Rightarrow> py_error + json list"
  search :: "string \<Rightarrow> string \<Rightarrow> int \<Rightarrow> py_error + json"
  builtin_format :: "json \<Rightarrow> string \<Rightarrow> py_error + string"
  strftime_gmtime :: "json \<Rightarrow> py_error + string"
  sanitize_filename :: "json \<Rightarrow> py_error + string"
  http_get :: "string \<Rightarrow> py_error + page"
  isfile :: "string \<Rightarrow> bool"
  read_lines :: "string \<Rightarrow> py_error + string list"
  tree_at :: "string \<Rightarrow> dir_tree option"
  cwd :: string
  read_audio :: "bool \<Rightarrow> string \<Rightarrow> audio option"

text \<open>The fields of \<^verbatim>\<open>QobuzDL\<close> that the modelled methods read.\<close>

record config =
  directory :: string
  no_m3u_for_playlists :: bool

section \<open>The download ledger\<close>

text \<open>
  Modelled from the spec: \<^verbatim>\<open>handle_download_id\<close> of \<^verbatim>\<open>qobuz_dl/db.py\<close> is not among
  the sources. The spec gives the ledger the contract \<^verbatim>\<open>contains(id) -> bool\<close>,
  \<^verbatim>\<open>insert(id) -> void\<close>, and says that without a configured ledger nothing is skipped
  and nothing is recorded. With \<^verbatim>\<open>add_id=False\<close> the call is the membership query, with
  \<^verbatim>\<open>add_id=True\<close> it is the insertion (and returns nothing, which is false).
\<close>

definition handle_download_id :: "json \<Rightarrow> bool \<Rightarrow> state \<Rightarrow> bool \<times> state" where
  "handle_download_id item_id add_id s =
     (case ledger s of
        None \<Rightarrow> (False, s)
      | Some db \<Rightarrow>
          if add_id then (False, emit (LedgerInsert item_id) (s\<lparr>ledger := Some (insert item_id db)\<rparr>))
          else (item_id \<in> db, s))"

section \<open>Downloading one item\<close>

text \<open>\<^verbatim>\<open>alt_path or self.directory\<close>: an absent or empty alternative path gives the base directory.\<close>

definition path_or :: "string option \<Rightarrow> string \<Rightarrow> string" where
  "path_or alt_path dir = (case alt_path of None \<Rightarrow> dir | Some p \<Rightarrow> if p = [] then dir else p)"

definition download_from_id ::
  "env \<Rightarrow> config \<Rightarrow> json \<Rightarrow> bool \<Rightarrow> string option \<Rightarrow> state \<Rightarrow> py_error option \<times> state" where
  "download_from_id E self item_id album alt_path s =
     (case handle_download_id item_id False s of
        (True, s1) \<Rightarrow> (None, emit (Log (AlreadyDownloaded item_id)) s1)
      | (False, s1) \<Rightarrow>
          (let dest = path_or alt_path (directory self);
               s2 = emit (Fetch item_id dest album) s1
           in case download_id_by_type E item_id dest album of
                None \<Rightarrow> (None, snd (handle_download_id item_id True s2))
              | Some e \<Rightarrow>
                  if e = RequestException \<or> e = NonStreamable
                  then (None, emit (Log (ErrorGettingRelease e)) s2)
                  else (Some e, s2)))"

section \<open>Rendering search hits\<close>

text \<open>
  A format string is kept in parsed form, as \<^verbatim>\<open>string.Formatter.parse\<close> yields it:
  literal text, and replacement fields \<^verbatim>\<open>{first[k1][k2]:spec}\<close> with a keyword name, the
  string keys that index into it and a format specification. The format strings of the
  module have no positional fields, no attribute lookups and no conversions.
\<close>

datatype segment = Literal string | Field string "string list" string

record partial_formatter =
  missing :: string
  bad_fmt :: string

text \<open>\<^verbatim>\<open>PartialFormatter()\<close> with its default arguments.\<close>

definition PartialFormatter :: partial_formatter where
  "PartialFormatter = \<lparr>missing = ''n/a'', bad_fmt = ''n/a''\<rparr>"

fun get_items :: "json \<Rightarrow> string list \<Rightarrow> py_error + json" where
  "get_items obj [] = Inr obj"
| "get_items obj (k # ks) = and_then (getitem obj k) (\<lambda>v. get_items v ks)"

text \<open>\<^verbatim>\<open>string.Formatter.get_field\<close>: the keyword argument, then each index in turn.\<close>

definition formatter_get_field :: "(string \<times> json) list \<Rightarrow> string \<Rightarrow> string list \<Rightarrow> py_error + json" where
  "formatter_get_field kwargs first rest =
     (case map_of kwargs first of None \<Rightarrow> Inl KeyError | Some obj \<Rightarrow> get_items obj rest)"

definition get_field :: "(string \<times> json) list \<Rightarrow> string \<Rightarrow> string list \<Rightarrow> py_error + json" where
  "get_field kwargs first rest =
     (case formatter_get_field kwargs first rest of
        Inl e \<Rightarrow> if e = KeyError \<or> e = AttributeError then Inr JNull else Inl e
      | Inr val \<Rightarrow> Inr val)"

definition format_field :: "env \<Rightarrow> partial_formatter \<Rightarrow> json \<Rightarrow> string \<Rightarrow> py_error + string" where
  "format_field E self value spec =
     (if \<not> truthy value then Inr (missing self)
      else case builtin_format E value spec of
             Inl e \<Rightarrow> if e = ValueError \<and> bad_fmt self \<noteq> [] then Inr (bad_fmt self) else Inl e
           | Inr text \<Rightarrow> Inr text)"

fun render_segment ::
  "env \<Rightarrow> partial_formatter \<Rightarrow> (string \<times> json) list \<Rightarrow> segment \<Rightarrow> py_error + string" where
  "render_segment E self kwargs (Literal text) = Inr text"
| "render_segment E self kwargs (Field first rest spec) =
     and_then (get_field kwargs first rest) (\<lambda>obj. format_field E self obj spec)"

text \<open>\<^verbatim>\<open>fmt.format(format_string, **kwargs)\<close>.\<close>

definition vformat ::
  "env \<Rightarrow> partial_formatter \<Rightarrow> segment list \<Rightarrow> (string \<times> json) list \<Rightarrow> py_error + string" where
  "vformat E self format_string kwargs =
     and_then (map_err (render_segment E self kwargs) format_string) (\<lambda>parts. Inr (concat parts))"

section \<open>Searching\<close>

definition WEB_URL :: string where
  "WEB_URL = ''https://play.qobuz.com/''"

record mode_dict =
  key :: string
  format :: "segment list"
  requires_extra :: bool

text \<open>
  The table \<^verbatim>\<open>possibles\<close> of \<^verbatim>\<open>search_by_type\<close>. Its \<^verbatim>\<open>func\<close> entry is the search call
  of the environment for the same type; its \<^verbatim>\<open>album\<close> entry is never read.
\<close>

definition search_possibles :: "(string \<times> mode_dict) list" where
  "search_possibles =
     [(''album'', \<lparr>key = ''albums'',
          format = [Field ''artist'' [''name''] [], Literal '' - '', Field ''title'' [] []],
          requires_extra = True\<rparr>),
      (''artist'', \<lparr>key = ''artists'',
          format = [Field ''name'' [] [], Literal '' - ('', Field ''albums_count'' [] [],
                    Literal '' releases)''],
          requires_extra = False\<rparr>),
      (''track'', \<lparr>key = ''tracks'',
          format = [Field ''performer'' [''name''] [], Literal '' - '', Field ''title'' [] []],
          requires_extra = True\<rparr>),
      (''playlist'', \<lparr>key = ''playlists'',
          format = [Field ''name'' [] [], Literal '' - ('', Field ''tracks_count'' [] [],
                    Literal '' releases)''],
          requires_extra = False\<rparr>)]"

datatype search_item = Entry string string | Url string

text \<open>The body of the loop over the hits: the display text and the URL of one hit.\<close>

definition render_hit :: "env \<Rightarrow> mode_dict \<Rightarrow> string \<Rightarrow> bool \<Rightarrow> json \<Rightarrow> py_error + search_item" where
  "render_hit E mode item_type lucky i =
     (case i of
        JDict kwargs \<Rightarrow>
          and_then (vformat E PartialFormatter (format mode) kwargs) (\<lambda>text.
          and_then
            (if requires_extra mode
             then and_then (getitem i ''duration'') (\<lambda>duration.
                  and_then (strftime_gmtime E duration) (\<lambda>shown.
                  and_then (getitem i ''hires_streamable'') (\<lambda>hires.
                  Inr (text @ '' - '' @ shown @ '' ['' @
                       (if truthy hires then ''HI-RES'' else ''LOSSLESS'') @ '']''))))
             else Inr text) (\<lambda>text.
          and_then
            (builtin_format E (case map_of kwargs ''id'' of None \<Rightarrow> JStr [] | Some v \<Rightarrow> v) [])
            (\<lambda>shown_id.
          let url = WEB_URL @ item_type @ ''/'' @ shown_id
          in Inr (if \<not> lucky then Entry text url else Url url))))
      | _ \<Rightarrow> Inl TypeError)"

definition search_by_type ::
  "env \<Rightarrow> string \<Rightarrow> string \<Rightarrow> int \<Rightarrow> bool \<Rightarrow> state \<Rightarrow> (py_error + search_item list option) \<times> state" where
  "search_by_type E query item_type limit lucky s =
     (if length query < 3 then (Inr None, emit (Log QueryTooShort) s)
      else
        let (tried, s1) =
              (case map_of search_possibles item_type of
                 None \<Rightarrow> (Inl KeyError, s)
               | Some mode \<Rightarrow>
                   (and_then (search E item_type query limit) (\<lambda>results.
                    and_then (getitem results (key mode)) (\<lambda>found.
                    and_then (getitem found ''items'') (\<lambda>iterable.
                    and_then (py_iter iterable) (\<lambda>hits.
                    map_err (render_hit E mode item_type lucky) hits)))),
                    emit (SearchCall item_type query limit) s))
        in case tried of
             Inl e \<Rightarrow>
               if e = KeyError \<or> e = IndexError
               then (Inr None, emit (Log (InvalidType item_type)) s1)
               else (Inl e, s1)
           | Inr item_list \<Rightarrow> (Inr (Some item_list), s1))"

section \<open>Assembling the playlist file\<close>

definition EXTENSIONS :: "string list" where
  "EXTENSIONS = [''.mp3'', ''.flac'']"

text \<open>
  \<^verbatim>\<open>os.walk\<close>, top down, with the sub-directories of each directory sorted by name as
  \<^verbatim>\<open>dirs.sort()\<close> leaves them: the directory's path and its files, then its
  sub-directories in turn. A path that is no directory gives nothing.
\<close>

fun walk :: "string \<Rightarrow> dir_tree \<Rightarrow> (string \<times> string list) list" where
  "walk local (Dir fs subs) =
     (local, fs) # concat (map (\<lambda>(name, sub). walk (join local name) sub) (sort_key fst subs))"

definition os_walk :: "env \<Rightarrow> string \<Rightarrow> (string \<times> string list) list" where
  "os_walk E topdir = (case tree_at E topdir of None \<Rightarrow> [] | Some t \<Rightarrow> walk topdir t)"

definition audio_rel_files :: "string \<Rightarrow> string list \<Rightarrow> string list" where
  "audio_rel_files local fs =
     map (\<lambda>file. join (basename (normpath local)) file)
       (filter (\<lambda>file. splitext_ext file \<in> set EXTENSIONS) fs)"

definition audio_files :: "env \<Rightarrow> string \<Rightarrow> string list \<Rightarrow> string list" where
  "audio_files E local fs =
     map (\<lambda>file. abspath (cwd E) (join local file))
       (filter (\<lambda>file. splitext_ext file \<in> set EXTENSIONS) fs)"

text \<open>
  The \<^verbatim>\<open>try\<close> block of the inner loop: \<open>None\<close> when anything in it raises, else the
  playlist entry of the file.
\<close>

definition first_of :: "string list option \<Rightarrow> string option" where
  "first_of tag = (case tag of None \<Rightarrow> None | Some [] \<Rightarrow> None | Some (v # vs) \<Rightarrow> Some v)"

definition m3u_index :: "env \<Rightarrow> string \<Rightarrow> string \<Rightarrow> string option" where
  "m3u_index E audio_rel_file audio_file =
     (case read_audio E (contains_str ''.mp3'' audio_file) audio_file of
        None \<Rightarrow> None
      | Some pl_item \<Rightarrow>
          (case (first_of (TITLE pl_item), first_of (ARTIST pl_item), info_length pl_item) of
             (Some title, Some artist, Some len) \<Rightarrow>
               Some (''#EXTINF:'' @ show_int len @ '', '' @ artist @ '' - '' @ title @
                     [CHR 0x0A] @ audio_rel_file)
           | _ \<Rightarrow> None))"

text \<open>
  The body of the loop over the walked directories. The guard passes over a directory
  with \<^verbatim>\<open>continue\<close>; otherwise the inner loop goes through the two lists together and
  collects the entries of the files whose \<^verbatim>\<open>try\<close> block succeeds. \<open>dir_entries\<close> is what
  the directory adds to \<^verbatim>\<open>track_list\<close>.
\<close>

datatype visit = Skipped | Scanned "string list"

definition visit_dir :: "env \<Rightarrow> string \<times> string list \<Rightarrow> visit" where
  "visit_dir E visited =
     (let rels = audio_rel_files (fst visited) (snd visited);
          abss = audio_files E (fst visited) (snd visited)
      in if abss = [] \<or> length abss \<noteq> length rels then Skipped
         else Scanned
                (List.map_filter (\<lambda>(audio_rel_file, audio_file). m3u_index E audio_rel_file audio_file)
                   (zip rels abss)))"

definition dir_entries :: "env \<Rightarrow> string \<times> string list \<Rightarrow> string list" where
  "dir_entries E visited =
     (case visit_dir E visited of Skipped \<Rightarrow> [] | Scanned entries \<Rightarrow> entries)"

definition m3u_track_list :: "env \<Rightarrow> string \<Rightarrow> string list" where
  "m3u_track_list E pl_directory =
     ''#EXTM3U'' # concat (map (dir_entries E) (os_walk E pl_directory))"

definition make_m3u :: "env \<Rightarrow> config \<Rightarrow> string \<Rightarrow> state \<Rightarrow> state" where
  "make_m3u E self pl_directory s =
     (if no_m3u_for_playlists self then s
      else
        let track_list = m3u_track_list E pl_directory;
            rel_folder = basename (normpath pl_directory);
            pl_name = rel_folder @ ''.m3u''
        in if length track_list > 1
           then emit (WriteFile (join pl_directory pl_name)
                        (str_join [CHR 0x0A, CHR 0x0A] track_list)) s
           else s)"

section \<open>Classifying a URL\<close>

text \<open>
  The pattern of \<^verbatim>\<open>get_id\<close>, up to its group, and the group \<^verbatim>\<open>(\w+)\<close>:
  \<^verbatim>\<open>https?://(?:w{0,3}|play|open)\.qobuz\.com/(?:(?:album|track|artist|playlist|label)/\<close>
  \<^verbatim>\<open>|[a-z]{2}-[a-z]{2}/album/-?\w+(?:-\w+)*-?/|user/library/favorites/)\<close>.
\<close>

definition id_prefix :: regex where
  "id_prefix = seqs
     [Chars ''http'', Opt (Chars ''s''), Chars ''://'',
      alts [Rep 0 3 (Chars ''w''), Chars ''play'', Chars ''open''],
      Chars ''.qobuz.com/'',
      alts
        [Seq (alts [Chars ''album'', Chars ''track'', Chars ''artist'', Chars ''playlist'',
                    Chars ''label''])
             (Chars ''/''),
         seqs [Rep 2 2 Lower, Chars ''-'', Rep 2 2 Lower, Chars ''/album/'', Opt (Chars ''-''),
               Plus Word, Star (Seq (Chars ''-'') (Plus Word)), Opt (Chars ''-''), Chars ''/''],
         Chars ''user/library/favorites/'']]"

text \<open>\<^verbatim>\<open>re.match(...).group(1)\<close>: without a match, \<^verbatim>\<open>None\<close> has no attribute \<^verbatim>\<open>group\<close>.\<close>

definition get_id :: "string \<Rightarrow> py_error + string" where
  "get_id url =
     (case re_match_group id_prefix (Plus Word) url of
        None \<Rightarrow> Inl AttributeError
      | Some g \<Rightarrow> Inr g)"

definition get_type :: "string \<Rightarrow> py_error + string" where
  "get_type url =
     (if rmatch (Seq (Chars ''http'') (Opt (Chars ''s''))) url \<noteq> []
      then and_then (index (split_on CHR ''/'' url) 3) (\<lambda>url_type.
           if url_type \<notin> set [''album'', ''artist'', ''playlist'', ''track'', ''label'']
           then (if url_type = ''user'' then index_last (split_on CHR ''/'' url)
                 else index (split_on CHR ''/'' url) 4)
           else Inr url_type)
      else index (split_on CHR ''/'' url) 2)"

section \<open>Handling one URL\<close>

text \<open>
  An entry of the table \<^verbatim>\<open>possibles\<close> of \<^verbatim>\<open>handle_url\<close>: a container type has a
  metadata function and the key of its items, a leaf type has neither and says whether
  it is an album.
\<close>

datatype type_dict = Container meta_func string | Leaf bool

definition possibles :: "(string \<times> type_dict) list" where
  "possibles =
     [(''playlist'', Container get_plist_meta ''tracks''),
      (''artist'', Container get_artist_meta ''albums''),
      (''label'', Container get_label_meta ''albums''),
      (''album'', Leaf True),
      (''track'', Leaf False)]"

text \<open>The \<^verbatim>\<open>try\<close> block of \<^verbatim>\<open>handle_url\<close>.\<close>

definition classify :: "string \<Rightarrow> py_error + string \<times> type_dict \<times> string" where
  "classify url =
     and_then (get_type url) (\<lambda>url_type.
     and_then (case map_of possibles url_type of None \<Rightarrow> Inl KeyError | Some d \<Rightarrow> Inr d)
       (\<lambda>type_dict.
     and_then (get_id url) (\<lambda>item_id.
     Inr (url_type, type_dict, item_id))))"

text \<open>\<^verbatim>\<open>create_dir\<close>: the normalised path, after the directory has been made.\<close>

definition create_dir :: "string \<Rightarrow> state \<Rightarrow> string \<times> state" where
  "create_dir dir s = (let fix = normpath dir in (fix, emit (MakeDirs fix) s))"

definition handle_url :: "env \<Rightarrow> config \<Rightarrow> string \<Rightarrow> state \<Rightarrow> py_error option \<times> state" where
  "handle_url E self url s =
     (case classify url of
        Inl e \<Rightarrow>
          if e = KeyError \<or> e = IndexError then (None, emit (Log (InvalidUrl url)) s)
          else (Some e, s)
      | Inr (url_type, Leaf album, item_id) \<Rightarrow> download_from_id E self (JStr item_id) album None s
      | Inr (url_type, Container func iterable_key, item_id) \<Rightarrow>
          (let s1 = emit (MetaCall func item_id) s
           in case get_meta E func item_id of
                Inl e \<Rightarrow> (Some e, s1)
              | Inr content \<Rightarrow>
          (case and_then (index content 0) (\<lambda>first_page. getitem first_page ''name'') of
             Inl e \<Rightarrow> (Some e, s1)
           | Inr content_name \<Rightarrow>
          (let s2 = emit (Log (DownloadingAll content_name url_type)) s1
           in case sanitize_filename E content_name of
                Inl e \<Rightarrow> (Some e, s2)
              | Inr clean \<Rightarrow>
          (let (new_path, s3) = create_dir (join (directory self) clean) s2
           in case and_then
                     (map_err (\<lambda>item. and_then (getitem item iterable_key)
                                 (\<lambda>listing. getitem listing ''items'')) content)
                     (\<lambda>all_items. index all_items 0) of
                Inl e \<Rightarrow> (Some e, s3)
              | Inr items \<Rightarrow>
          (case py_len items of
             Inl e \<Rightarrow> (Some e, s3)
           | Inr n \<Rightarrow>
          (let s4 = emit (Log (DownloadsInQueue n)) s3
           in case py_iter items of
                Inl e \<Rightarrow> (Some e, s4)
              | Inr members \<Rightarrow>
          (case for_each
                  (\<lambda>item st.
                     case getitem item ''id'' of
                       Inl e \<Rightarrow> (Some e, st)
                     | Inr member_id \<Rightarrow>
                         download_from_id E self member_id (iterable_key = ''albums'')
                           (Some new_path) st)
                  members s4 of
             (Some e, s5) \<Rightarrow> (Some e, s5)
           | (None, s5) \<Rightarrow>
               (None, if url_type = ''playlist'' then make_m3u E self new_path s5 else s5)))))))))"

section \<open>Importing a foreign playlist page\<close>

definition lastfm_track_list :: "string list \<Rightarrow> string list \<Rightarrow> string list" where
  "lastfm_track_list artist_names track_titles =
     (if length artist_names = length track_titles \<and> artist_names \<noteq> []
      then map (\<lambda>(artist, title). artist @ '' '' @ title) (zip artist_names track_titles)
      else [])"

text \<open>
  The body of the loop over the queries: the first result of a lucky search for one
  track, its id, and the download of that id.
\<close>

definition lastfm_track :: "env \<Rightarrow> config \<Rightarrow> string \<Rightarrow> string \<Rightarrow> state \<Rightarrow> py_error option \<times> state" where
  "lastfm_track E self pl_directory i s =
     (case search_by_type E i ''track'' 1 True s of
        (Inl e, s1) \<Rightarrow> (Some e, s1)
      | (Inr None, s1) \<Rightarrow> (Some TypeError, s1)
      | (Inr (Some []), s1) \<Rightarrow> (Some IndexError, s1)
      | (Inr (Some (Entry text url # others)), s1) \<Rightarrow> (Some TypeError, s1)
      | (Inr (Some (Url url # others)), s1) \<Rightarrow>
          (case get_id url of
             Inl e \<Rightarrow> (Some e, s1)
           | Inr track_id \<Rightarrow>
               if track_id \<noteq> [] then download_from_id E self (JStr track_id) False (Some pl_directory) s1
               else (None, s1)))"

definition download_lastfm_pl :: "env \<Rightarrow> config \<Rightarrow> string \<Rightarrow> state \<Rightarrow> py_error option \<times> state" where
  "download_lastfm_pl E self playlist_url s =
     (let s1 = emit (HttpGet playlist_url) s
      in case http_get E playlist_url of
           Inl e \<Rightarrow>
             if e = RequestException then (None, emit (Log (PlaylistDownloadFailed e)) s1)
             else (Some e, s1)
         | Inr soup \<Rightarrow>
             (let track_list = lastfm_track_list (artists soup) (titles soup)
              in if track_list = [] then (None, emit (Log NothingFound) s1)
                 else
                   (case heading soup of
                      None \<Rightarrow> (Some AttributeError, s1)
                    | Some h1 \<Rightarrow>
                   (case sanitize_filename E (JStr h1) of
                      Inl e \<Rightarrow> (Some e, s1)
                    | Inr pl_title \<Rightarrow>
                   (let pl_directory = join (directory self) pl_title;
                        s2 = emit (Log (DownloadingPlaylist pl_title (length track_list))) s1
                    in case for_each (lastfm_track E self pl_directory) track_list s2 of
                         (Some e, s3) \<Rightarrow> (Some e, s3)
                       | (None, s3) \<Rightarrow> (None, make_m3u E self pl_directory s3))))))"

section \<open>Downloading a list of URLs\<close>

definition is_space :: "char \<Rightarrow> bool" where
  "is_space c \<longleftrightarrow>
     c \<in> set [CHR 0x09, CHR 0x0A, CHR 0x0B, CHR 0x0C, CHR 0x0D,
              CHR 0x1C, CHR 0x1D, CHR 0x1E, CHR 0x1F, CHR '' '']"

definition strip :: "string \<Rightarrow> string" where
  "strip text = rev (dropWhile is_space (rev (dropWhile is_space text)))"

text \<open>
  \<^verbatim>\<open>download_from_txt_file\<close> calls \<^verbatim>\<open>download_list_of_urls\<close>, which calls it for every
  entry that is a file: a listing file that names itself would never be done with. The
  recursion is taken through the parameter \<open>download_list\<close>, and \<open>download_list_of_urls\<close>
  counts the nesting of listing files down from \<open>depth\<close>, raising \<^verbatim>\<open>RecursionError\<close>
  at zero as the interpreter does at its recursion limit.
\<close>

definition download_from_txt_file ::
  "(string list \<Rightarrow> state \<Rightarrow> py_error option \<times> state) \<Rightarrow> env \<Rightarrow> string \<Rightarrow> state
     \<Rightarrow> py_error option \<times> state" where
  "download_from_txt_file download_list E txt_file s =
     (case read_lines E txt_file of
        Inl e \<Rightarrow> (None, emit (Log (InvalidTextFile e)) s)
      | Inr lines \<Rightarrow>
          (let urls = map (filter (\<lambda>c. c \<noteq> CHR 0x0A))
                        (filter (\<lambda>line. \<not> prefix ''#'' (strip line)) lines)
           in download_list urls (emit (Log (WillDownloadFromFile (length urls) txt_file)) s)))"

fun download_list_of_urls ::
  "nat \<Rightarrow> env \<Rightarrow> config \<Rightarrow> string list \<Rightarrow> state \<Rightarrow> py_error option \<times> state" where
  "download_list_of_urls depth E self urls s =
     (if urls = [] then (None, emit (Log NothingToDownload) s)
      else for_each
             (\<lambda>url st.
                if contains_str ''last.fm'' url then download_lastfm_pl E self url st
                else if isfile E url then
                  (case depth of
                     0 \<Rightarrow> (Some RecursionError, st)
                   | Suc d \<Rightarrow> download_from_txt_file (download_list_of_urls d E self) E url st)
                else handle_url E self url st)
             urls s)"

declare download_list_of_urls.simps [simp del]

section \<open>Notions used in the statements\<close>

text \<open>
  An id is recorded when a ledger is configured and holds it. \<open>since s s'\<close> is what a
  run from \<open>s\<close> to \<open>s'\<close> added to the trace, \<open>fetched_ids\<close> the ids the downloader was
  called for in a piece of trace, and \<open>succeeded\<close> those among them for which the
  downloader returned.
\<close>

definition recorded :: "state \<Rightarrow> json \<Rightarrow> bool" where
  "recorded s i = (case ledger s of None \<Rightarrow> False | Some db \<Rightarrow> i \<in> db)"

fun fetched_ids :: "event list \<Rightarrow> json list" where
  "fetched_ids [] = []"
| "fetched_ids (Fetch i dest album # evs) = i # fetched_ids evs"
| "fetched_ids (e # evs) = fetched_ids evs"

fun succeeded :: "env \<Rightarrow> event list \<Rightarrow> json list" where
  "succeeded E [] = []"
| "succeeded E (Fetch i dest album # evs) =
     (if download_id_by_type E i dest album = None then i # succeeded E evs
      else succeeded E evs)"
| "succeeded E (e # evs) = succeeded E evs"

definition since :: "state \<Rightarrow> state \<Rightarrow> event list" where
  "since s s' = drop (length (trace s)) (trace s')"

text \<open>
  The invariant of every procedure of the module: the trace only grows; without a
  ledger there is none afterwards; with one, it only grows, it holds every id whose
  download succeeded, and no id it held at the start was fetched.
\<close>

definition keeps_ledger :: "env \<Rightarrow> state \<Rightarrow> state \<Rightarrow> bool" where
  "keeps_ledger E s s' \<longleftrightarrow>
     take (length (trace s)) (trace s') = trace s \<and>
     (case ledger s of
        None \<Rightarrow> ledger s' = None
      | Some db \<Rightarrow>
          (case ledger s' of
             None \<Rightarrow> False
           | Some db' \<Rightarrow> db \<subseteq> db' \<and> set (succeeded E (since s s')) \<subseteq> db'
                \<and> set (fetched_ids (since s s')) \<inter> db = {}))"

text \<open>A file is recognised by its extension; its tags are read when the \<^verbatim>\<open>try\<close> block succeeds.\<close>

definition recognized :: "string \<Rightarrow> bool" where
  "recognized file \<longleftrightarrow> splitext_ext file \<in> set EXTENSIONS"

definition readable :: "env \<Rightarrow> string \<Rightarrow> bool" where
  "readable E audio_file \<longleftrightarrow>
     (case read_audio E (contains_str ''.mp3'' audio_file) audio_file of
        None \<Rightarrow> False
      | Some pl_item \<Rightarrow>
          first_of (TITLE pl_item) \<noteq> None \<and> first_of (ARTIST pl_item) \<noteq> None
          \<and> info_length pl_item \<noteq> None)"

text \<open>
  What the \<^verbatim>\<open>try\<close> block reads from an audio file, when all of it is there: the length
  in seconds, the artist and the title; and the \<^verbatim>\<open>#EXTINF\<close> line made of them.
\<close>

definition read_tags :: "env \<Rightarrow> string \<Rightarrow> (int \<times> string \<times> string) option" where
  "read_tags E audio_file =
     (case read_audio E (contains_str ''.mp3'' audio_file) audio_file of
        None \<Rightarrow> None
      | Some pl_item \<Rightarrow>
          (case (info_length pl_item, first_of (ARTIST pl_item), first_of (TITLE pl_item)) of
             (Some len, Some artist, Some title) \<Rightarrow> Some (len, artist, title)
           | _ \<Rightarrow> None))"

definition extinf_line :: "int \<times> string \<times> string \<Rightarrow> string" where
  "extinf_line tags =
     (case tags of (len, artist, title) \<Rightarrow>
        ''#EXTINF:'' @ show_int len @ '', '' @ artist @ '' - '' @ title)"

text \<open>The recognised audio files under a directory, each with the directory it lies in.\<close>

definition candidates :: "env \<Rightarrow> string \<Rightarrow> (string \<times> string) list" where
  "candidates E pl_directory =
     concat (map (\<lambda>(local, fs). map (\<lambda>file. (local, file)) (filter recognized fs))
       (os_walk E pl_directory))"

text \<open>A directory name: not empty, not \<^verbatim>\<open>.\<close> or \<^verbatim>\<open>..\<close>, without a separator.\<close>

definition plain_name :: "string \<Rightarrow> bool" where
  "plain_name d \<longleftrightarrow> d \<noteq> [] \<and> d \<noteq> ''.'' \<and> d \<noteq> ''..'' \<and> CHR ''/'' \<notin> set d"

section \<open>Example environments\<close>

text \<open>
  An outside world in which every download succeeds, the catalog knows nothing and the
  file system is empty. Its built-in \<^verbatim>\<open>format\<close> knows strings and integers and pays
  no attention to the specification, which is empty wherever the examples use it; its
  clock shows a number of seconds as hours, minutes and seconds of the day.
\<close>

definition two_digits :: "nat \<Rightarrow> string" where
  "two_digits n = [char_of (48 + n div 10), char_of (48 + n mod 10)]"

definition hhmmss :: "int \<Rightarrow> string" where
  "hhmmss seconds =
     two_digits (nat (seconds div 3600 mod 24)) @ '':'' @
     two_digits (nat (seconds div 60 mod 60)) @ '':'' @
     two_digits (nat (seconds mod 60))"

definition example_env :: env where
  "example_env =
     \<lparr>download_id_by_type = (\<lambda>item_id path album. None),
      get_meta = (\<lambda>func item_id. Inr []),
      search = (\<lambda>item_type query limit. Inr (JDict [])),
      builtin_format =
        (\<lambda>v spec. case v of JStr t \<Rightarrow> Inr t | JInt i \<Rightarrow> Inr (show_int i) | _ \<Rightarrow> Inl TypeError),
      strftime_gmtime = (\<lambda>v. case v of JInt i \<Rightarrow> Inr (hhmmss i) | _ \<Rightarrow> Inl TypeError),
      sanitize_filename = (\<lambda>v. case v of JStr t \<Rightarrow> Inr t | _ \<Rightarrow> Inl TypeError),
      http_get = (\<lambda>url. Inl RequestException),
      isfile = (\<lambda>path. False),
      read_lines = (\<lambda>path. Inr []),
      tree_at = (\<lambda>path. None),
      cwd = ''/home/user'',
      read_audio = (\<lambda>mp3 path. None)\<rparr>"

definition example_config :: config where
  "example_config = \<lparr>directory = ''Qobuz Downloads'', no_m3u_for_playlists = False\<rparr>"

definition empty_ledger :: state where
  "empty_ledger = \<lparr>ledger = Some {}, trace = []\<rparr>"

definition album_url :: string where
  "album_url = ''https://play.qobuz.com/album/abc123''"

definition after_album :: state where
  "after_album =
     \<lparr>ledger = Some {JStr ''abc123''},
      trace = [Fetch (JStr ''abc123'') ''Qobuz Downloads'' True, LedgerInsert (JStr ''abc123'')]\<rparr>"

text \<open>A playlist whose metadata lacks the items field, and one whose items are empty.\<close>

definition mix_url :: string where
  "mix_url = ''https://play.qobuz.com/playlist/1''"

definition missing_items_env :: env where
  "missing_items_env =
     example_env\<lparr>get_meta :=
       (\<lambda>func item_id. Inr [JDict [(''name'', JStr ''Mix''), (''tracks'', JDict [])]])\<rparr>"

definition empty_items_page :: json where
  "empty_items_page = JDict [(''name'', JStr ''Mix''), (''tracks'', JDict [(''items'', JList [])])]"

definition empty_items_env :: env where
  "empty_items_env = example_env\<lparr>get_meta := (\<lambda>func item_id. Inr [empty_items_page])\<rparr>"

definition after_logging :: state where
  "after_logging =
     \<lparr>ledger = Some {},
      trace = [MetaCall get_plist_meta ''1'', Log (DownloadingAll (JStr ''Mix'') ''playlist''),
               MakeDirs ''Qobuz Downloads/Mix'']\<rparr>"

definition after_empty_playlist :: state where
  "after_empty_playlist =
     \<lparr>ledger = Some {},
      trace = [MetaCall get_plist_meta ''1'', Log (DownloadingAll (JStr ''Mix'') ''playlist''),
               MakeDirs ''Qobuz Downloads/Mix'', Log (DownloadsInQueue 0)]\<rparr>"

text \<open>
  Search answers: a track hit without its duration, an artist hit with nothing but an id,
  and an artist hit with no releases. \<open>picky_env\<close> has a built-in \<^verbatim>\<open>format\<close> that raises
  \<^verbatim>\<open>ValueError\<close> for the specification \<^verbatim>\<open>d\<close> on a string.
\<close>

definition no_duration_hit :: json where
  "no_duration_hit =
     JDict [(''title'', JStr ''Song''), (''performer'', JDict [(''name'', JStr ''Band'')]),
            (''id'', JInt 5), (''hires_streamable'', JBool True)]"

definition no_duration_env :: env where
  "no_duration_env =
     example_env\<lparr>search :=
       (\<lambda>item_type query limit. Inr (JDict [(''tracks'', JDict [(''items'', JList [no_duration_hit])])]))\<rparr>"

definition bare_artist_hit :: "(string \<times> json) list" where
  "bare_artist_hit = [(''id'', JInt 7)]"

definition artist_format :: "segment list" where
  "artist_format =
     [Field ''name'' [] [], Literal '' - ('', Field ''albums_count'' [] [], Literal '' releases)'']"

definition idle_artist_hit :: json where
  "idle_artist_hit = JDict [(''name'', JStr ''Band''), (''albums_count'', JInt 0), (''id'', JInt 7)]"

definition idle_artist_env :: env where
  "idle_artist_env =
     example_env\<lparr>search :=
       (\<lambda>item_type query limit. Inr (JDict [(''artists'', JDict [(''items'', JList [idle_artist_hit])])]))\<rparr>"

definition picky_env :: env where
  "picky_env =
     example_env\<lparr>builtin_format :=
       (\<lambda>v spec. if spec = ''d'' then (case v of JStr t \<Rightarrow> Inl ValueError
                                        | _ \<Rightarrow> builtin_format example_env v [])
                  else builtin_format example_env v spec)\<rparr>"

text \<open>
  A segment is absent from a hit when it is a field whose keyword the hit lacks;
  \<open>with_placeholders\<close> is a format string with every field replaced by the placeholder.
\<close>

definition absent_from :: "(string \<times> json) list \<Rightarrow> segment \<Rightarrow> bool" where
  "absent_from kwargs seg =
     (case seg of Literal l \<Rightarrow> True | Field first rest spec \<Rightarrow> map_of kwargs first = None)"

definition with_placeholders :: "segment list \<Rightarrow> string" where
  "with_placeholders format_string =
     concat (map (\<lambda>seg. case seg of Literal l \<Rightarrow> l | Field first rest spec \<Rightarrow> ''n/a'') format_string)"

text \<open>
  Playlist directories: one with an album folder that holds three audio files with
  tags, one whose tags cannot be read and a picture; and one with a single audio file
  at its top.
\<close>

definition album_files :: "string list" where
  "album_files = [''a.flac'', ''b.flac'', ''c.mp3'', ''bad.flac'', ''cover.jpg'']"

definition album_dir_env :: env where
  "album_dir_env =
     example_env
       \<lparr>tree_at :=
          (\<lambda>path. if path = ''Music/PL'' then Some (Dir [] [(''Album'', Dir album_files [])])
                   else None),
        read_audio :=
          (\<lambda>mp3 path. if path = ''/home/user/Music/PL/Album/bad.flac'' then None
                       else Some \<lparr>TITLE = Some [''T''], ARTIST = Some [''A''],
                                  info_length = Some 10\<rparr>)\<rparr>"

definition flat_env :: env where
  "flat_env =
     example_env
       \<lparr>tree_at := (\<lambda>path. if path = ''Music/PL'' then Some (Dir [''x.flac''] []) else None),
        read_audio :=
          (\<lambda>mp3 path. Some \<lparr>TITLE = Some [''T''], ARTIST = Some [''A''], info_length = Some 10\<rparr>)\<rparr>"

definition extinf :: "string \<Rightarrow> string" where
  "extinf path = ''#EXTINF:10, A - T'' @ [CHR 0x0A] @ path"

text \<open>
  Foreign playlist pages: one with five artists and four titles, one with two of each.
\<close>

definition lastfm_url :: string where
  "lastfm_url = ''https://www.last.fm/user/someone/playlists/1''"

definition mismatched_page :: page where
  "mismatched_page =
     \<lparr>artists = [''a1'', ''a2'', ''a3'', ''a4'', ''a5''], titles = [''t1'', ''t2'', ''t3'', ''t4''],
      heading = Some ''Mix''\<rparr>"

definition mismatched_env :: env where
  "mismatched_env = example_env\<lparr>http_get := (\<lambda>url. Inr mismatched_page)\<rparr>"

definition paired_page :: page where
  "paired_page =
     \<lparr>artists = [''Band'', ''Singer''], titles = [''Song'', ''Tune''], heading = Some ''Mix''\<rparr>"

definition track_hit :: json where
  "track_hit =
     JDict [(''title'', JStr ''Song''), (''performer'', JDict [(''name'', JStr ''Band'')]),
            (''id'', JInt 5), (''duration'', JInt 200), (''hires_streamable'', JBool False)]"

definition paired_env :: env where
  "paired_env =
     example_env
       \<lparr>http_get := (\<lambda>url. Inr paired_page),
        search := (\<lambda>item_type query limit.
                     Inr (JDict [(''tracks'', JDict [(''items'', JList [track_hit])])]))\<rparr>"

definition after_import :: state where
  "after_import =
     \<lparr>ledger = Some {JStr ''5''},
      trace = [HttpGet lastfm_url, Log (DownloadingPlaylist ''Mix'' 2),
               SearchCall ''track'' ''Band Song'' 1,
               Fetch (JStr ''5'') ''Qobuz Downloads/Mix'' False, LedgerInsert (JStr ''5''),
               SearchCall ''track'' ''Singer Tune'' 1, Log (AlreadyDownloaded (JStr ''5''))]\<rparr>"

section \<open>The ledger is written only after a successful download\<close>

lemma download_from_id_recorded:
  "recorded s i \<Longrightarrow>
   download_from_id E self i album alt_path s = (None, emit (Log (AlreadyDownloaded i)) s)"
  by (auto simp: download_from_id_def handle_download_id_def recorded_def split: option.splits)

lemma download_from_id_success:
  "\<not> recorded s i \<Longrightarrow> download_id_by_type E i (path_or alt_path (directory self)) album = None \<Longrightarrow>
   download_from_id E self i album alt_path s =
     (None, s\<lparr>ledger := map_option (insert i) (ledger s),
              trace := trace s @ Fetch i (path_or alt_path (directory self)) album #
                 (if ledger s = None then [] else [LedgerInsert i])\<rparr>)"
  by (auto simp: download_from_id_def handle_download_id_def recorded_def emit_def Let_def
      split: option.splits)

lemma download_from_id_failure:
  "\<not> recorded s i \<Longrightarrow> download_id_by_type E i (path_or alt_path (directory self)) album = Some e \<Longrightarrow>
   download_from_id E self i album alt_path s =
     (if e = RequestException \<or> e = NonStreamable
      then (None, s\<lparr>trace := trace s @ [Fetch i (path_or alt_path (directory self)) album,
                                         Log (ErrorGettingRelease e)]\<rparr>)
      else (Some e, s\<lparr>trace := trace s @ [Fetch i (path_or alt_path (directory self)) album]\<rparr>))"
  by (auto simp: download_from_id_def handle_download_id_def recorded_def emit_def Let_def
      split: option.splits)

lemma example_album_download:
  "download_from_id example_env example_config (JStr ''abc123'') True None empty_ledger
     = (None, after_album)"
  by (simp add: download_from_id_def handle_download_id_def example_env_def example_config_def
      empty_ledger_def after_album_def emit_def path_or_def)

text \<open>
  C1. Whatever the item, the environment and the state: a call of \<^verbatim>\<open>download_from_id\<close>
  only adds to the trace; the ledger changes only by an insertion of the item's id; an
  insertion is the event right after the downloader call, which then returned, for an id
  that was not recorded; a recorded id leaves the ledger as it was, and so does every
  exception of the downloader, a network or non-streamable error included.
\<close>

theorem download_from_id_inserts_after_success:
  assumes "download_from_id E self item_id album alt_path s = (r, s')"
  shows "\<exists>new. trace s' = trace s @ new \<and>
     (ledger s' \<noteq> ledger s \<longrightarrow> LedgerInsert item_id \<in> set new) \<and>
     (\<forall>j. LedgerInsert j \<in> set new \<longrightarrow>
        j = item_id \<and>
        new = [Fetch item_id (path_or alt_path (directory self)) album, LedgerInsert item_id] \<and>
        download_id_by_type E item_id (path_or alt_path (directory self)) album = None \<and>
        \<not> recorded s item_id \<and>
        ledger s' = map_option (insert item_id) (ledger s)) \<and>
     (recorded s item_id \<longrightarrow> ledger s' = ledger s \<and> new = [Log (AlreadyDownloaded item_id)]) \<and>
     (\<forall>e. \<not> recorded s item_id \<and>
        download_id_by_type E item_id (path_or alt_path (directory self)) album = Some e \<longrightarrow>
        ledger s' = ledger s \<and> (\<forall>j. LedgerInsert j \<notin> set new))"
proof (cases "recorded s item_id")
  case True
  with assms have "s' = emit (Log (AlreadyDownloaded item_id)) s"
    by (simp add: download_from_id_recorded)
  with True show ?thesis by (simp add: emit_def)
next
  case False
  show ?thesis
  proof (cases "download_id_by_type E item_id (path_or alt_path (directory self)) album")
    case None
    with False assms show ?thesis
      by (auto simp: download_from_id_success)
  next
    case (Some e)
    with False assms show ?thesis
      by (auto simp: download_from_id_failure split: if_splits)
  qed
qed

theorem download_from_id_inserts_after_success_witness:
  "download_from_id example_env example_config (JStr ''abc123'') True None empty_ledger
     = (None, after_album) \<and>
   (\<exists>new. trace after_album = trace empty_ledger @ new \<and>
     (ledger after_album \<noteq> ledger empty_ledger \<longrightarrow> LedgerInsert (JStr ''abc123'') \<in> set new) \<and>
     (\<forall>j. LedgerInsert j \<in> set new \<longrightarrow>
        j = JStr ''abc123'' \<and>
        new = [Fetch (JStr ''abc123'') (path_or None (directory example_config)) True,
               LedgerInsert (JStr ''abc123'')] \<and>
        download_id_by_type example_env (JStr ''abc123'')
          (path_or None (directory example_config)) True = None \<and>
        \<not> recorded empty_ledger (JStr ''abc123'') \<and>
        ledger after_album = map_option (insert (JStr ''abc123'')) (ledger empty_ledger)) \<and>
     (recorded empty_ledger (JStr ''abc123'') \<longrightarrow>
        ledger after_album = ledger empty_ledger \<and> new = [Log (AlreadyDownloaded (JStr ''abc123''))]) \<and>
     (\<forall>e. \<not> recorded empty_ledger (JStr ''abc123'') \<and>
        download_id_by_type example_env (JStr ''abc123'')
          (path_or None (directory example_config)) True = Some e \<longrightarrow>
        ledger after_album = ledger empty_ledger \<and> (\<forall>j. LedgerInsert j \<notin> set new)))"
proof (rule conjI)
  show "download_from_id example_env example_config (JStr ''abc123'') True None empty_ledger
     = (None, after_album)"
    by (rule example_album_download)
qed (rule download_from_id_inserts_after_success [OF example_album_download])

section \<open>Recorded items are skipped\<close>

lemma fetched_ids_append: "fetched_ids (xs @ ys) = fetched_ids xs @ fetched_ids ys"
  by (induction xs rule: fetched_ids.induct) simp_all

lemma succeeded_append: "succeeded E (xs @ ys) = succeeded E xs @ succeeded E ys"
  by (induction E xs rule: succeeded.induct) simp_all

lemma keeps_ledger_refl: "keeps_ledger E s s"
  by (simp add: keeps_ledger_def since_def split: option.splits)

lemma take_prefix_eq: "take (length xs) ys = xs \<longleftrightarrow> (\<exists>zs. ys = xs @ zs)"
  by (metis append_eq_conv_conj append_take_drop_id)

lemma keeps_ledger_trans:
  assumes "keeps_ledger E s s1" and "keeps_ledger E s1 s2"
  shows "keeps_ledger E s s2"
proof -
  from assms(1) obtain n1 where t1: "trace s1 = trace s @ n1"
    by (auto simp: keeps_ledger_def take_prefix_eq)
  from assms(2) obtain n2 where t2: "trace s2 = trace s1 @ n2"
    by (auto simp: keeps_ledger_def take_prefix_eq)
  have sn: "since s s2 = since s s1 @ since s1 s2"
    by (simp add: since_def t1 t2)
  show ?thesis
    using assms unfolding keeps_ledger_def sn
    by (auto simp: t1 t2 fetched_ids_append succeeded_append split: option.splits)
qed

lemma keeps_ledger_emit:
  "(\<And>i dest album. e \<noteq> Fetch i dest album) \<Longrightarrow> keeps_ledger E s (emit e s)"
  by (cases e) (auto simp: keeps_ledger_def emit_def since_def split: option.splits)

lemma keeps_ledger_download_from_id:
  "keeps_ledger E s (snd (download_from_id E self i album alt_path s))"
  by (auto simp: download_from_id_def handle_download_id_def keeps_ledger_def emit_def since_def
      Let_def split: option.splits bool.splits)

lemma keeps_ledger_for_each:
  assumes "\<And>x s. keeps_ledger E s (snd (body x s))"
  shows "keeps_ledger E s (snd (for_each body xs s))"
proof (induction xs arbitrary: s)
  case Nil
  show ?case by (simp add: keeps_ledger_refl)
next
  case (Cons x xs)
  show ?case
  proof (cases "body x s")
    case (Pair r s1)
    have step: "keeps_ledger E s s1" using assms [of s x] Pair by simp
    show ?thesis
    proof (cases r)
      case None
      with Pair Cons.IH [of s1] step show ?thesis
        by (auto intro: keeps_ledger_trans)
    next
      case (Some e)
      with Pair step show ?thesis by simp
    qed
  qed
qed

lemma keeps_ledger_search_by_type:
  "keeps_ledger E s (snd (search_by_type E query item_type limit lucky s))"
  by (auto simp: search_by_type_def Let_def keeps_ledger_emit keeps_ledger_refl
      intro!: keeps_ledger_emit keeps_ledger_trans [OF keeps_ledger_emit keeps_ledger_emit]
      split: option.splits sum.splits prod.splits)

lemma keeps_ledger_make_m3u: "keeps_ledger E s (make_m3u E' self pl_directory s)"
  by (simp add: make_m3u_def Let_def keeps_ledger_emit keeps_ledger_refl)



lemma keeps_ledger_then_emit:
  "keeps_ledger E s t \<Longrightarrow> (\<And>i dest album. e \<noteq> Fetch i dest album) \<Longrightarrow> keeps_ledger E s (emit e t)"
  by (erule keeps_ledger_trans) (rule keeps_ledger_emit)

lemma keeps_ledger_then_download:
  "keeps_ledger E s t \<Longrightarrow> keeps_ledger E s (snd (download_from_id E self i album alt_path t))"
  by (erule keeps_ledger_trans) (rule keeps_ledger_download_from_id)

lemma keeps_ledger_then_m3u:
  "keeps_ledger E s t \<Longrightarrow> keeps_ledger E s (make_m3u E' self pl_directory t)"
  by (erule keeps_ledger_trans) (rule keeps_ledger_make_m3u)

lemma keeps_ledger_then_for_each:
  "keeps_ledger E s t \<Longrightarrow> (\<And>x u. keeps_ledger E u (snd (body x u))) \<Longrightarrow>
   keeps_ledger E s (snd (for_each body xs t))"
  by (erule keeps_ledger_trans) (rule keeps_ledger_for_each)

lemma keeps_ledger_member:
  "keeps_ledger E st
     (snd (case getitem x ''id'' of
             Inl e \<Rightarrow> (Some e, st)
           | Inr member_id \<Rightarrow> download_from_id E self member_id album alt_path st))"
  by (cases "getitem x ''id''") (simp_all add: keeps_ledger_refl keeps_ledger_download_from_id)

lemma snd_for_each_eq:
  "for_each body xs t = (r, u) \<Longrightarrow> u = snd (for_each body xs t)"
  by simp

lemma keeps_ledger_handle_url: "keeps_ledger E s (snd (handle_url E self url s))"
  unfolding handle_url_def create_dir_def Let_def
  by (auto split: sum.splits prod.splits type_dict.splits option.splits
      dest!: snd_for_each_eq
      intro!: keeps_ledger_then_emit keeps_ledger_then_download keeps_ledger_then_m3u
        keeps_ledger_then_for_each keeps_ledger_member keeps_ledger_refl)


lemma keeps_ledger_then_search:
  "keeps_ledger E s t \<Longrightarrow> keeps_ledger E s (snd (search_by_type E query item_type limit lucky t))"
  by (erule keeps_ledger_trans) (rule keeps_ledger_search_by_type)

lemma snd_search_eq:
  "search_by_type E query item_type limit lucky t = (r, u) \<Longrightarrow>
   u = snd (search_by_type E query item_type limit lucky t)"
  by simp

lemma keeps_ledger_lastfm_track:
  "keeps_ledger E s (snd (lastfm_track E self pl_directory i s))"
  unfolding lastfm_track_def
  by (auto split: sum.splits prod.splits option.splits list.splits search_item.splits
      dest!: snd_search_eq
      intro!: keeps_ledger_then_download keeps_ledger_then_search keeps_ledger_refl)

lemma keeps_ledger_download_lastfm_pl:
  "keeps_ledger E s (snd (download_lastfm_pl E self playlist_url s))"
  unfolding download_lastfm_pl_def Let_def
  by (auto split: sum.splits prod.splits option.splits
      dest!: snd_for_each_eq
      intro!: keeps_ledger_then_emit keeps_ledger_then_m3u keeps_ledger_then_for_each
        keeps_ledger_lastfm_track keeps_ledger_refl)

lemma keeps_ledger_download_from_txt_file:
  assumes "\<And>urls t. keeps_ledger E t (snd (download_list urls t))"
  shows "keeps_ledger E s (snd (download_from_txt_file download_list E txt_file s))"
  unfolding download_from_txt_file_def Let_def
  by (auto split: sum.splits intro!: keeps_ledger_emit
      intro: keeps_ledger_trans [OF keeps_ledger_emit assms])

lemma keeps_ledger_download_list_of_urls:
  "keeps_ledger E s (snd (download_list_of_urls depth E self urls s))"
proof (induction depth arbitrary: urls s)
  case 0
  show ?case
    unfolding download_list_of_urls.simps [of 0]
    by (auto intro!: keeps_ledger_emit keeps_ledger_for_each keeps_ledger_download_lastfm_pl
        keeps_ledger_handle_url keeps_ledger_refl)
next
  case (Suc d)
  show ?case
    unfolding download_list_of_urls.simps [of "Suc d"]
    by (auto intro!: keeps_ledger_emit keeps_ledger_for_each keeps_ledger_download_lastfm_pl
        keeps_ledger_handle_url keeps_ledger_download_from_txt_file Suc.IH)
qed

lemma download_list_of_urls_plain:
  assumes "\<not> contains_str ''last.fm'' url" and "\<not> isfile E url"
  shows "download_list_of_urls depth E self (url # urls) s =
     (case handle_url E self url s of
        (None, s1) \<Rightarrow> if urls = [] then (None, s1) else download_list_of_urls depth E self urls s1
      | (Some e, s1) \<Rightarrow> (Some e, s1))"
  using assms
  by (cases urls) (auto simp: download_list_of_urls.simps [of depth] split: prod.splits option.splits)

lemma classify_album_url: "classify album_url = Inr (''album'', Leaf True, ''abc123'')"
  unfolding album_url_def by code_simp

lemma handle_album_url:
  "handle_url E self album_url s = download_from_id E self (JStr ''abc123'') True None s"
  by (simp add: handle_url_def classify_album_url)

lemma album_url_plain: "\<not> contains_str ''last.fm'' album_url"
  unfolding album_url_def by code_simp

lemma example_env_no_file: "\<not> isfile example_env path"
  by (simp add: example_env_def)

lemma example_first_run:
  "download_list_of_urls 0 example_env example_config [album_url] empty_ledger = (None, after_album)"
  by (simp add: download_list_of_urls_plain [OF album_url_plain example_env_no_file]
      handle_album_url example_album_download)

lemma skip_recorded_album:
  "download_from_id example_env example_config (JStr ''abc123'') True None after_album
     = (None, after_album\<lparr>trace := trace after_album @ [Log (AlreadyDownloaded (JStr ''abc123''))]\<rparr>)"
  by (simp add: download_from_id_recorded recorded_def after_album_def emit_def)

lemma example_second_run:
  "download_list_of_urls 0 example_env example_config [album_url] after_album
     = (None, after_album\<lparr>trace := trace after_album @ [Log (AlreadyDownloaded (JStr ''abc123''))]\<rparr>)"
  by (simp add: download_list_of_urls_plain [OF album_url_plain example_env_no_file]
      handle_album_url skip_recorded_album)

text \<open>
  C2. A call of \<^verbatim>\<open>download_from_id\<close> for a recorded id returns without an exception and
  leaves the state as it was but for the log line of the skip: no downloader call, no
  catalog call, the ledger untouched. And when a batch is run from a state with a ledger,
  and run again on the ledger the first run left (whatever the outside world answers the
  second time), every id whose download succeeded in the first run is recorded after the
  first run, still recorded after the second, and never fetched in the second.
\<close>

theorem recorded_items_are_skipped:
  "(recorded s i \<longrightarrow>
      download_from_id E self i album alt_path s
        = (None, s\<lparr>trace := trace s @ [Log (AlreadyDownloaded i)]\<rparr>))
   \<and> (ledger s0 \<noteq> None
        \<and> download_list_of_urls depth E self urls s0 = (r1, s1)
        \<and> ledger t1 = ledger s1
        \<and> download_list_of_urls depth E' self urls t1 = (r2, s2)
      \<longrightarrow> (\<forall>j \<in> set (succeeded E (since s0 s1)).
             recorded s1 j \<and> recorded s2 j \<and> j \<notin> set (fetched_ids (since t1 s2))))"
proof -
  have one: "download_from_id E self i album alt_path s
        = (None, s\<lparr>trace := trace s @ [Log (AlreadyDownloaded i)]\<rparr>)" if "recorded s i"
    using that by (simp add: download_from_id_recorded emit_def)
  have two: "recorded s1 j \<and> recorded s2 j \<and> j \<notin> set (fetched_ids (since t1 s2))"
    if runs: "ledger s0 \<noteq> None
        \<and> download_list_of_urls depth E self urls s0 = (r1, s1)
        \<and> ledger t1 = ledger s1
        \<and> download_list_of_urls depth E' self urls t1 = (r2, s2)"
      and j: "j \<in> set (succeeded E (since s0 s1))" for j
  proof -
    have first: "keeps_ledger E s0 s1"
      using keeps_ledger_download_list_of_urls [of E s0 depth self urls] runs by simp
    have second: "keeps_ledger E' t1 s2"
      using keeps_ledger_download_list_of_urls [of E' t1 depth self urls] runs by simp
    from runs obtain db0 where db0: "ledger s0 = Some db0" by auto
    with first obtain db1 where db1: "ledger s1 = Some db1" "set (succeeded E (since s0 s1)) \<subseteq> db1"
      by (auto simp: keeps_ledger_def split: option.splits)
    with runs have t1: "ledger t1 = Some db1" by simp
    with second obtain db2 where db2: "ledger s2 = Some db2" "db1 \<subseteq> db2"
      "set (fetched_ids (since t1 s2)) \<inter> db1 = {}"
      by (auto simp: keeps_ledger_def split: option.splits)
    from j db1 have "j \<in> db1" by auto
    with db1 db2 show ?thesis
      by (auto simp: recorded_def)
  qed
  from one two show ?thesis by blast
qed

theorem recorded_items_are_skipped_witness:
  "recorded after_album (JStr ''abc123'')
   \<and> download_from_id example_env example_config (JStr ''abc123'') True None after_album
       = (None, after_album\<lparr>trace := trace after_album @ [Log (AlreadyDownloaded (JStr ''abc123''))]\<rparr>)
   \<and> ledger empty_ledger \<noteq> None
   \<and> download_list_of_urls 0 example_env example_config [album_url] empty_ledger = (None, after_album)
   \<and> download_list_of_urls 0 example_env example_config [album_url] after_album
       = (None, after_album\<lparr>trace := trace after_album @ [Log (AlreadyDownloaded (JStr ''abc123''))]\<rparr>)
   \<and> JStr ''abc123'' \<in> set (succeeded example_env (since empty_ledger after_album))
   \<and> JStr ''abc123'' \<notin> set (fetched_ids (since after_album
         (after_album\<lparr>trace := trace after_album @ [Log (AlreadyDownloaded (JStr ''abc123''))]\<rparr>)))"
proof -
  have rec: "recorded after_album (JStr ''abc123'')"
    by (simp add: recorded_def after_album_def)
  have led: "ledger empty_ledger \<noteq> None"
    by (simp add: empty_ledger_def)
  have suc: "JStr ''abc123'' \<in> set (succeeded example_env (since empty_ledger after_album))"
    by (simp add: since_def empty_ledger_def after_album_def example_env_def)
  note inst = recorded_items_are_skipped [of after_album "JStr ''abc123''" example_env
      example_config True None empty_ledger 0 "[album_url]" None after_album after_album
      example_env None
      "after_album\<lparr>trace := trace after_album @ [Log (AlreadyDownloaded (JStr ''abc123''))]\<rparr>"]
  from inst rec led suc example_first_run example_second_run show ?thesis
    by blast
qed

section \<open>Containers without items\<close>

lemma classify_mix_url:
  "classify mix_url = Inr (''playlist'', Container get_plist_meta ''tracks'', ''1'')"
  unfolding mix_url_def by code_simp

lemma mix_url_plain: "\<not> contains_str ''last.fm'' mix_url"
  unfolding mix_url_def by code_simp

lemma normpath_mix: "normpath (join ''Qobuz Downloads'' ''Mix'') = ''Qobuz Downloads/Mix''"
  by code_simp

lemma handle_missing_items:
  "handle_url missing_items_env example_config mix_url empty_ledger = (Some KeyError, after_logging)"
  by (simp add: handle_url_def classify_mix_url missing_items_env_def example_env_def
      example_config_def empty_ledger_def after_logging_def emit_def index_def and_then_def
      create_dir_def normpath_mix Let_def)

text \<open>
  A playlist whose metadata has no items field, followed by an album: the lookup of the
  field raises \<^verbatim>\<open>KeyError\<close>, nothing catches it, and the album is never reached.
\<close>

theorem missing_items_abort_the_batch:
  "download_list_of_urls 0 missing_items_env example_config [mix_url, album_url] empty_ledger
     = (Some KeyError, after_logging)"
proof -
  have "\<not> isfile missing_items_env mix_url"
    by (simp add: missing_items_env_def example_env_def)
  from download_list_of_urls_plain [OF mix_url_plain this]
  show ?thesis by (simp add: handle_missing_items)
qed

text \<open>
  C3, as the code has it. For a container reference (artist, label, playlist) whose
  metadata pages all have the items field, the first of them empty: \<^verbatim>\<open>handle_url\<close>
  returns without an exception, logs a queue of zero downloads, calls the downloader for
  no item, and a batch that holds more references goes on with them.
\<close>

theorem empty_container_downloads_nothing:
  assumes "classify url = Inr (url_type, Container func iterable_key, item_id)"
    and "get_meta E func item_id = Inr (first_page # pages)"
    and "getitem first_page ''name'' = Inr content_name"
    and "sanitize_filename E content_name = Inr clean"
    and "map_err (\<lambda>item. and_then (getitem item iterable_key) (\<lambda>listing. getitem listing ''items''))
           (first_page # pages) = Inr (items # more_items)"
    and "py_len items = Inr 0"
    and "finished =
           (if url_type = ''playlist''
            then make_m3u E self (normpath (join (directory self) clean)) else (\<lambda>st. st))
           (s\<lparr>trace := trace s @
              [MetaCall func item_id, Log (DownloadingAll content_name url_type),
               MakeDirs (normpath (join (directory self) clean)), Log (DownloadsInQueue 0)]\<rparr>)"
  shows "handle_url E self url s = (None, finished)
    \<and> fetched_ids (since s finished) = []
    \<and> (\<not> contains_str ''last.fm'' url \<and> \<not> isfile E url \<and> urls \<noteq> [] \<longrightarrow>
         download_list_of_urls depth E self (url # urls) s
           = download_list_of_urls depth E self urls finished)"
proof -
  from assms(6) have it: "py_iter items = Inr []"
    by (cases items) simp_all
  have run: "handle_url E self url s = (None, finished)"
    using assms it
    by (simp add: handle_url_def emit_def index_def and_then_def create_dir_def Let_def)
  have "fetched_ids (since s finished) = []"
    unfolding assms(7)
    by (simp add: since_def make_m3u_def emit_def Let_def)
  moreover have "download_list_of_urls depth E self (url # urls) s
           = download_list_of_urls depth E self urls finished"
    if "\<not> contains_str ''last.fm'' url" "\<not> isfile E url" "urls \<noteq> []"
    using that by (simp add: download_list_of_urls_plain run)
  ultimately show ?thesis using run by blast
qed


theorem empty_container_downloads_nothing_witness:
  "handle_url empty_items_env example_config mix_url empty_ledger = (None, after_empty_playlist)
   \<and> fetched_ids (since empty_ledger after_empty_playlist) = []
   \<and> download_list_of_urls 0 empty_items_env example_config [mix_url, album_url] empty_ledger
       = download_list_of_urls 0 empty_items_env example_config [album_url] after_empty_playlist"
proof -
  have meta: "get_meta empty_items_env get_plist_meta ''1'' = Inr (empty_items_page # [])"
    by (simp add: empty_items_env_def)
  have name: "getitem empty_items_page ''name'' = Inr (JStr ''Mix'')"
    by (simp add: empty_items_page_def)
  have clean: "sanitize_filename empty_items_env (JStr ''Mix'') = Inr ''Mix''"
    by (simp add: empty_items_env_def example_env_def)
  have listing: "map_err (\<lambda>item. and_then (getitem item ''tracks'') (\<lambda>listing. getitem listing ''items''))
           (empty_items_page # []) = Inr (JList [] # [])"
    by (simp add: empty_items_page_def and_then_def)
  have none: "py_len (JList []) = Inr 0"
    by simp
  have fin: "after_empty_playlist =
           (if ''playlist'' = ''playlist''
            then make_m3u empty_items_env example_config
                   (normpath (join (directory example_config) ''Mix'')) else (\<lambda>st. st))
           (empty_ledger\<lparr>trace := trace empty_ledger @
              [MetaCall get_plist_meta ''1'', Log (DownloadingAll (JStr ''Mix'') ''playlist''),
               MakeDirs (normpath (join (directory example_config) ''Mix'')),
               Log (DownloadsInQueue 0)]\<rparr>)"
    by (simp add: after_empty_playlist_def empty_ledger_def example_config_def normpath_mix
        make_m3u_def m3u_track_list_def os_walk_def empty_items_env_def example_env_def)
  have plain: "\<not> contains_str ''last.fm'' mix_url \<and> \<not> isfile empty_items_env mix_url
      \<and> [album_url] \<noteq> []"
    by (simp add: mix_url_plain empty_items_env_def example_env_def)
  from empty_container_downloads_nothing
    [where urls = "[album_url]" and depth = 0 and self = example_config and s = empty_ledger,
     OF classify_mix_url meta name clean listing none fin] plain
  show ?thesis by blast
qed

section \<open>Splitting and joining paths\<close>

lemma split_on_no_sep:
  assumes "c \<notin> set s"
  shows "split_on c s = [s]"
proof -
  from assms have "dropWhile (\<lambda>x. x \<noteq> c) s = []"
    by (auto simp: dropWhile_eq_Nil_conv)
  then show ?thesis
    by (subst split_on.simps) (simp del: dropWhile_eq_Nil_conv)
qed

lemma split_on_first:
  assumes "c \<notin> set a"
  shows "split_on c (a @ c # b) = a # split_on c b"
proof -
  from assms have all: "\<And>x. x \<in> set a \<Longrightarrow> x \<noteq> c" by auto
  have "dropWhile (\<lambda>x. x \<noteq> c) (a @ c # b) = c # b"
    using all by (simp add: dropWhile_append2)
  moreover have "takeWhile (\<lambda>x. x \<noteq> c) (a @ c # b) = a"
    using all by (simp add: takeWhile_append2)
  ultimately show ?thesis
    by (subst split_on.simps) simp
qed

lemma split_on_last: "c \<notin> set d \<Longrightarrow> split_on c (p @ c # d) = split_on c p @ [d]"
proof (induction c p rule: split_on.induct)
  case (1 c s)
  show ?case
  proof (cases "dropWhile (\<lambda>x. x \<noteq> c) s")
    case Nil
    then have "c \<notin> set s" by (auto simp: dropWhile_eq_Nil_conv)
    with "1.prems" show ?thesis
      by (simp add: split_on_first split_on_no_sep)
  next
    case (Cons sep rest)
    define tw where "tw = takeWhile (\<lambda>x. x \<noteq> c) s"
    have "sep = c"
      using hd_dropWhile [of "\<lambda>x. x \<noteq> c" s] Cons by auto
    with Cons have s: "s = tw @ c # rest"
      using takeWhile_dropWhile_id [of "\<lambda>x. x \<noteq> c" s] by (simp add: tw_def)
    have notin: "c \<notin> set tw"
      by (auto simp: tw_def dest: set_takeWhileD)
    have ih: "split_on c (rest @ c # d) = split_on c rest @ [d]"
      using "1.IH" [OF Cons] "1.prems" by simp
    have "split_on c (s @ c # d) = split_on c (tw @ c # (rest @ c # d))"
      by (simp add: s)
    also have "\<dots> = tw # split_on c (rest @ c # d)"
      using notin by (rule split_on_first)
    also have "\<dots> = (tw # split_on c rest) @ [d]"
      by (simp add: ih)
    also have "tw # split_on c rest = split_on c s"
      unfolding s using notin by (rule split_on_first [symmetric])
    finally show ?thesis .
  qed
qed

lemma str_join_snoc:
  "str_join sep (xs @ [d]) = (if xs = [] then d else str_join sep xs @ sep @ d)"
  by (induction sep xs rule: str_join.induct) simp_all

lemma basename_after_sep:
  "CHR ''/'' \<notin> set d \<Longrightarrow> y = [] \<or> last y = CHR ''/'' \<Longrightarrow> basename (y @ d) = d"
proof -
  assume d: "CHR ''/'' \<notin> set d" and y: "y = [] \<or> last y = CHR ''/''"
  have "takeWhile (\<lambda>c. c \<noteq> CHR ''/'') (rev d @ rev y) = rev d"
  proof (cases y rule: rev_cases)
    case Nil
    with d show ?thesis by (auto simp: takeWhile_eq_all_conv)
  next
    case (snoc ys c)
    with y have "c = CHR ''/''" by simp
    with snoc d show ?thesis by (auto simp: takeWhile_append2 takeWhile_tail)
  qed
  then show ?thesis by (simp add: basename_def)
qed


lemma join_plain_shape:
  assumes "plain_name d"
  shows "join pl d = d \<or> (\<exists>x. join pl d = x @ CHR ''/'' # d)"
proof -
  from assms have nd: "\<not> prefix ''/'' d"
    by (cases d) (auto simp: plain_name_def)
  show ?thesis
  proof (cases "pl = []")
    case True
    with nd show ?thesis by (simp add: join_def)
  next
    case False
    show ?thesis
    proof (cases "last pl = CHR ''/''")
      case True
      with False have "pl = butlast pl @ ''/''"
        by (metis append_butlast_last_id)
      then have "join pl d = butlast pl @ CHR ''/'' # d"
        using nd True False by (simp add: join_def)
      then show ?thesis by blast
    next
      case F2: False
      with False nd have "join pl d = pl @ CHR ''/'' # d" by (simp add: join_def)
      then show ?thesis by blast
    qed
  qed
qed

lemma normpath_ends_with_plain:
  assumes "plain_name d" and "q = d \<or> (\<exists>x. q = x @ CHR ''/'' # d)"
  shows "\<exists>y. normpath q = y @ d \<and> (y = [] \<or> last y = CHR ''/'')"
proof -
  from assms(1) have d: "d \<noteq> []" "d \<noteq> ''.''" "d \<noteq> ''..''" "CHR ''/'' \<notin> set d"
    by (simp_all add: plain_name_def)
  from assms(2) d have q: "q \<noteq> []" by auto
  from assms(2) obtain cs where cs: "split_on CHR ''/'' q = cs @ [d]"
  proof
    assume "q = d"
    with d have "split_on CHR ''/'' q = [] @ [d]" by (simp add: split_on_no_sep)
    then show ?thesis by (rule that)
  next
    assume "\<exists>x. q = x @ CHR ''/'' # d"
    then obtain x where "q = x @ CHR ''/'' # d" ..
    with d have "split_on CHR ''/'' q = split_on CHR ''/'' x @ [d]" by (simp add: split_on_last)
    then show ?thesis by (rule that)
  qed
  define n where "n = (if prefix ''/'' q
               then (if prefix ''//'' q \<and> \<not> prefix ''///'' q then 2 else 1)
               else (0::nat))"
  define acc where "acc = foldl (norm_step (n \<noteq> 0)) [] cs"
  have fold: "foldl (norm_step (n \<noteq> 0)) [] (split_on CHR ''/'' q) = acc @ [d]"
    using d by (simp add: cs acc_def norm_step_def)
  define y where "y = replicate n CHR ''/'' @ (if acc = [] then [] else str_join ''/'' acc @ ''/'')"
  have shape: "replicate n CHR ''/'' @ str_join ''/'' (acc @ [d]) = y @ d"
    by (simp add: y_def str_join_snoc)
  have "normpath q = y @ d"
    using q d unfolding normpath_def n_def [symmetric] Let_def fold shape by simp
  moreover have "y = [] \<or> last y = CHR ''/''"
    by (cases "acc = []"; cases "n = 0") (simp_all add: y_def)
  ultimately show ?thesis by blast
qed

lemma basename_normpath_join:
  assumes "plain_name d"
  shows "basename (normpath (join pl d)) = d"
proof -
  from normpath_ends_with_plain [OF assms join_plain_shape [OF assms]]
  obtain y where "normpath (join pl d) = y @ d" "y = [] \<or> last y = CHR ''/''" by blast
  with assms show ?thesis by (simp add: basename_after_sep plain_name_def)
qed

lemma join_assoc_plain:
  assumes "plain_name d" and "\<not> prefix ''/'' file"
  shows "join pl (join d file) = join (join pl d) file"
proof -
  from assms(1) have ne: "d \<noteq> []" and no_sep: "CHR ''/'' \<notin> set d"
    by (simp_all add: plain_name_def)
  from ne have "last d \<in> set d"
    by (rule last_in_set)
  with no_sep have "last d \<noteq> CHR ''/''"
    by auto
  moreover from ne no_sep have "\<not> prefix ''/'' d"
    by (cases d) auto
  ultimately have d: "d \<noteq> []" "last d \<noteq> CHR ''/''" "\<not> prefix ''/'' d"
    using ne by simp_all
  have inner: "join d file = d @ ''/'' @ file"
    using d assms(2) by (simp add: join_def)
  have np: "\<not> prefix ''/'' (d @ ''/'' @ file)"
    using d by (cases d) auto
  show ?thesis
  proof (cases "pl = [] \<or> last pl = CHR ''/''")
    case True
    then have "join pl d = pl @ d" using d by (auto simp: join_def)
    moreover have "join pl (d @ ''/'' @ file) = pl @ d @ ''/'' @ file"
      using True np by (auto simp: join_def)
    moreover have "join (pl @ d) file = (pl @ d) @ ''/'' @ file"
      using d assms(2) by (simp add: join_def)
    ultimately show ?thesis by (simp add: inner)
  next
    case False
    then have "join pl d = pl @ ''/'' @ d" using d by (auto simp: join_def)
    moreover have "join pl (d @ ''/'' @ file) = pl @ ''/'' @ d @ ''/'' @ file"
      using False np by (auto simp: join_def)
    moreover have "join (pl @ ''/'' @ d) file = (pl @ ''/'' @ d) @ ''/'' @ file"
      using d assms(2) by (simp add: join_def)
    ultimately show ?thesis by (simp add: inner)
  qed
qed

section \<open>Classifying URLs\<close>

lemma rmatch_Word: "rmatch Word = match_class is_word"
  by (rule ext) simp

lemma match_star_word_all:
  assumes "list_all is_word w" and "length w \<le> n"
  shows "\<exists>others. match_star (match_class is_word) n w = [] # others"
  using assms
proof (induction n arbitrary: w)
  case 0
  then show ?case by simp
next
  case (Suc n)
  show ?case
  proof (cases w)
    case Nil
    then show ?thesis by simp
  next
    case (Cons c cs)
    with Suc.prems have "list_all is_word cs" "length cs \<le> n" "is_word c" by simp_all
    with Suc.IH [of cs] obtain others where "match_star (match_class is_word) n cs = [] # others"
      by blast
    with Cons \<open>is_word c\<close> show ?thesis by simp
  qed
qed

lemma plus_word_all:
  assumes "list_all is_word w" and "w \<noteq> []"
  shows "\<exists>others. rmatch (Plus Word) w = [] # others"
proof -
  from assms obtain c cs where w: "w = c # cs" "is_word c" "list_all is_word cs"
    by (cases w) auto
  from match_star_word_all [OF w(3), of "length cs"] obtain others
    where "match_star (match_class is_word) (length cs) cs = [] # others" by auto
  with w show ?thesis by (simp add: rmatch_Word)
qed

lemma group_after_prefix:
  assumes "rmatch pre s = [w]" and "list_all is_word w" and "w \<noteq> []"
  shows "re_match_group pre (Plus Word) s = Some w"
proof -
  from plus_word_all [OF assms(2,3)] obtain others where "rmatch (Plus Word) w = [] # others"
    by blast
  with assms(1) show ?thesis by (simp add: re_match_group_def)
qed

lemma id_prefix_canonical:
  assumes "scheme \<in> {''http'', ''https''}"
    and "host \<in> {[], ''w'', ''ww'', ''www'', ''play'', ''open''}"
    and "t \<in> {''album'', ''track'', ''artist'', ''playlist'', ''label''}"
  shows "rmatch id_prefix (scheme @ ''://'' @ host @ ''.qobuz.com/'' @ t @ ''/'' @ w) = [w]"
  using assms
  by (elim insertE emptyE; simp add: id_prefix_def eval_nat_numeral is_lower_def)

lemma split_on_url:
  assumes "CHR ''/'' \<notin> set a" "CHR ''/'' \<notin> set h" "CHR ''/'' \<notin> set t" "CHR ''/'' \<notin> set w"
  shows "split_on CHR ''/'' (a @ ''//'' @ h @ ''/'' @ t @ ''/'' @ w) = [a, [], h, t, w]"
proof -
  have "split_on CHR ''/'' (a @ CHR ''/'' # ([] @ CHR ''/'' # (h @ CHR ''/'' # (t @ CHR ''/'' # w))))
      = [a, [], h, t, w]"
    using assms by (simp only: split_on_first split_on_no_sep set_simps empty_iff not_False_eq_True)
  then show ?thesis by simp
qed

lemma word_is_no_separator: "is_word c \<Longrightarrow> c \<noteq> CHR ''/''"
  by (auto simp: is_word_def)

lemma get_type_canonical:
  assumes "scheme \<in> {''http'', ''https''}"
    and "CHR ''/'' \<notin> set host"
    and "t \<in> {''album'', ''track'', ''artist'', ''playlist'', ''label''}"
    and "CHR ''/'' \<notin> set w"
  shows "get_type (scheme @ ''://'' @ host @ ''.qobuz.com/'' @ t @ ''/'' @ w) = Inr t"
proof -
  have http: "rmatch (Seq (Chars ''http'') (Opt (Chars ''s'')))
      (scheme @ ''://'' @ host @ ''.qobuz.com/'' @ t @ ''/'' @ w) \<noteq> []"
    using assms(1) by auto
  have t: "CHR ''/'' \<notin> set t"
    using assms(3) by auto
  have a: "CHR ''/'' \<notin> set (scheme @ '':'')"
    using assms(1) by auto
  have h: "CHR ''/'' \<notin> set (host @ ''.qobuz.com'')"
    using assms(2) by simp
  have "split_on CHR ''/'' ((scheme @ '':'') @ ''//'' @ (host @ ''.qobuz.com'') @ ''/'' @ t @ ''/'' @ w)
      = [scheme @ '':'', [], host @ ''.qobuz.com'', t, w]"
    using a h t assms(4) by (rule split_on_url)
  then have parts: "split_on CHR ''/'' (scheme @ ''://'' @ host @ ''.qobuz.com/'' @ t @ ''/'' @ w)
      = [scheme @ '':'', [], host @ ''.qobuz.com'', t, w]"
    by simp
  show ?thesis
    unfolding get_type_def parts using http assms(3)
    by (auto simp add: index_def and_then_def eval_nat_numeral simp del: rmatch.simps)
qed

text \<open>
  A URL of the web player or the site, with one of the five types and an id of word
  characters after it, is classified as that type and that id.
\<close>

lemma classify_canonical_url:
  assumes "scheme \<in> {''http'', ''https''}"
    and "host \<in> {[], ''w'', ''ww'', ''www'', ''play'', ''open''}"
    and "t \<in> {''album'', ''track'', ''artist'', ''playlist'', ''label''}"
    and "w \<noteq> []" and "list_all is_word w"
  shows "\<exists>type_dict. map_of possibles t = Some type_dict \<and>
     classify (scheme @ ''://'' @ host @ ''.qobuz.com/'' @ t @ ''/'' @ w) = Inr (t, type_dict, w)"
proof -
  from assms(5) have w: "CHR ''/'' \<notin> set w"
    by (auto simp: list_all_iff dest: word_is_no_separator)
  from assms(2) have host: "CHR ''/'' \<notin> set host"
    by auto
  have ty: "get_type (scheme @ ''://'' @ host @ ''.qobuz.com/'' @ t @ ''/'' @ w) = Inr t"
    using assms(1) host assms(3) w by (rule get_type_canonical)
  have "re_match_group id_prefix (Plus Word)
      (scheme @ ''://'' @ host @ ''.qobuz.com/'' @ t @ ''/'' @ w) = Some w"
    using id_prefix_canonical [OF assms(1-3)] assms(5,4) by (rule group_after_prefix)
  then have id: "get_id (scheme @ ''://'' @ host @ ''.qobuz.com/'' @ t @ ''/'' @ w) = Inr w"
    by (simp add: get_id_def)
  from assms(3) obtain type_dict where "map_of possibles t = Some type_dict"
    by (auto simp: possibles_def)
  then show ?thesis
    unfolding classify_def ty id by (simp add: and_then_def)
qed

text \<open>A URL of the store, with its locale and the name of the album before the id.\<close>

lemma classify_store_url:
  "classify ''https://www.qobuz.com/us-en/album/some-album-name/abc123''
     = Inr (''album'', Leaf True, ''abc123'')"
  by code_simp

text \<open>
  An unknown type and a missing segment raise \<^verbatim>\<open>KeyError\<close> and \<^verbatim>\<open>IndexError\<close>; these
  \<^verbatim>\<open>handle_url\<close> catches: it logs the URL as invalid and returns.
\<close>

lemma classify_unknown_type: "classify ''https://play.qobuz.com/video/abc123'' = Inl KeyError"
  by code_simp

lemma classify_too_short: "classify ''abc123'' = Inl IndexError"
  by code_simp

lemma handle_url_skips_invalid:
  assumes "classify url = Inl KeyError \<or> classify url = Inl IndexError"
  shows "handle_url E self url s = (None, emit (Log (InvalidUrl url)) s)"
  using assms by (auto simp: handle_url_def)

text \<open>
  C4, at the inputs where the code fails it. \<^verbatim>\<open>get_type\<close> accepts a URL without its base
  (its comment gives \<^verbatim>\<open>/us-en/album/{artist}/{id}\<close>) and finds the type \<^verbatim>\<open>album\<close>; the
  pattern of \<^verbatim>\<open>get_id\<close> needs the scheme, finds no match, and \<^verbatim>\<open>.group(1)\<close> on \<^verbatim>\<open>None\<close>
  raises \<^verbatim>\<open>AttributeError\<close>. \<^verbatim>\<open>handle_url\<close> catches \<^verbatim>\<open>KeyError\<close> and \<^verbatim>\<open>IndexError\<close> only,
  so the exception leaves it. The same happens to a play URL that names a type and no
  id, and to a URL of another site with a known type in the same place: the batch ends
  there, and the album after it is not downloaded.
\<close>

theorem unmatched_url_raises_attribute_error:
  "classify ''/us-en/album/some-artist/abc123'' = Inl AttributeError
   \<and> handle_url E self ''/us-en/album/some-artist/abc123'' s = (Some AttributeError, s)
   \<and> classify ''https://play.qobuz.com/album'' = Inl AttributeError
   \<and> handle_url E self ''https://play.qobuz.com/album'' s = (Some AttributeError, s)
   \<and> classify ''https://www.example.com/album/123'' = Inl AttributeError
   \<and> handle_url E self ''https://www.example.com/album/123'' s = (Some AttributeError, s)
   \<and> download_list_of_urls 0 example_env example_config
         [''https://www.example.com/album/123'', album_url] empty_ledger
       = (Some AttributeError, empty_ledger)"
proof -
  have a: "classify ''/us-en/album/some-artist/abc123'' = Inl AttributeError"
    by code_simp
  have b: "classify ''https://play.qobuz.com/album'' = Inl AttributeError"
    by code_simp
  have c: "classify ''https://www.example.com/album/123'' = Inl AttributeError"
    by code_simp
  have plain: "\<not> contains_str ''last.fm'' ''https://www.example.com/album/123''"
    by code_simp
  have raised: "handle_url E self ''https://www.example.com/album/123'' s = (Some AttributeError, s)"
    for E self s
    by (simp add: c handle_url_def)
  have batch: "download_list_of_urls 0 example_env example_config
         [''https://www.example.com/album/123'', album_url] empty_ledger
       = (Some AttributeError, empty_ledger)"
    by (simp add: download_list_of_urls_plain [OF plain example_env_no_file] raised)
  show ?thesis
    by (simp add: a b c batch handle_url_def)
qed

section \<open>Rendering hits with missing fields\<close>

text \<open>
  A search for tracks whose only hit has no duration: the lookup of the duration raises
  \<^verbatim>\<open>KeyError\<close>, which the handler of \<^verbatim>\<open>search_by_type\<close> takes for an invalid type; the
  search logs that and returns \<^verbatim>\<open>None\<close>, so no line is rendered for the hit at all.
\<close>

theorem missing_duration_gives_no_line:
  "search_by_type no_duration_env ''some query'' ''track'' 10 False empty_ledger
     = (Inr None,
        \<lparr>ledger = Some {},
         trace = [SearchCall ''track'' ''some query'' 10, Log (InvalidType ''track'')]\<rparr>)"
  by (simp add: search_by_type_def search_possibles_def no_duration_env_def no_duration_hit_def
      example_env_def empty_ledger_def emit_def and_then_def render_hit_def vformat_def
      get_field_def formatter_get_field_def format_field_def PartialFormatter_def Let_def)

lemma format_field_falsy:
  "\<not> truthy val \<Longrightarrow> format_field E PartialFormatter val spec = Inr ''n/a''"
  by (simp add: format_field_def PartialFormatter_def)

lemma render_absent_field:
  "formatter_get_field kwargs first rest = Inl KeyError \<Longrightarrow>
   render_segment E PartialFormatter kwargs (Field first rest spec) = Inr ''n/a''"
  by (simp add: get_field_def and_then_def format_field_falsy)

lemma render_bad_format:
  "get_field kwargs first rest = Inr val \<Longrightarrow> truthy val \<Longrightarrow>
   builtin_format E val spec = Inl ValueError \<Longrightarrow>
   render_segment E PartialFormatter kwargs (Field first rest spec) = Inr ''n/a''"
  by (simp add: and_then_def format_field_def PartialFormatter_def)

lemma render_missing_keyword:
  "map_of kwargs first = None \<Longrightarrow>
   render_segment E PartialFormatter kwargs (Field first rest spec) = Inr ''n/a''"
  by (rule render_absent_field) (simp add: formatter_get_field_def)

lemma map_err_all_absent:
  "list_all (absent_from kwargs) format_string \<Longrightarrow>
   map_err (render_segment E PartialFormatter kwargs) format_string
     = Inr (map (\<lambda>seg. case seg of Literal l \<Rightarrow> l | Field first rest spec \<Rightarrow> ''n/a'') format_string)"
proof (induction format_string)
  case Nil
  show ?case by simp
next
  case (Cons seg segs)
  then show ?case
    by (cases seg)
      (simp_all add: absent_from_def render_missing_keyword del: render_segment.simps(2))
qed

text \<open>
  C5, as the code has it. In the display text that \<^verbatim>\<open>PartialFormatter\<close> renders from the
  format string of the type: a field whose keyword the hit lacks renders as \<^verbatim>\<open>n/a\<close>; so
  does a field whose lookup raises \<^verbatim>\<open>KeyError\<close> further in; so does a field with a true
  value for which the built-in \<^verbatim>\<open>format\<close> raises \<^verbatim>\<open>ValueError\<close>; and a format string
  all of whose fields are absent from the hit renders, without an exception, as its
  literal text with \<^verbatim>\<open>n/a\<close> for every field.
\<close>

theorem template_fields_render_placeholder:
  "(map_of kwargs first = None \<longrightarrow>
      render_segment E PartialFormatter kwargs (Field first rest spec) = Inr ''n/a'')
   \<and> (formatter_get_field kwargs first rest = Inl KeyError \<longrightarrow>
      render_segment E PartialFormatter kwargs (Field first rest spec) = Inr ''n/a'')
   \<and> (get_field kwargs first rest = Inr val \<and> truthy val
        \<and> builtin_format E val spec = Inl ValueError \<longrightarrow>
      render_segment E PartialFormatter kwargs (Field first rest spec) = Inr ''n/a'')
   \<and> (list_all (absent_from kwargs) format_string \<longrightarrow>
      vformat E PartialFormatter format_string kwargs = Inr (with_placeholders format_string))"
  by (simp add: render_missing_keyword render_absent_field render_bad_format map_err_all_absent
      vformat_def and_then_def with_placeholders_def del: render_segment.simps(2))

theorem template_fields_render_placeholder_witness:
  "map_of search_possibles ''artist''
     = Some \<lparr>key = ''artists'', format = artist_format, requires_extra = False\<rparr>
   \<and> map_of bare_artist_hit ''name'' = None
   \<and> render_segment example_env PartialFormatter bare_artist_hit (Field ''name'' [] []) = Inr ''n/a''
   \<and> formatter_get_field [(''artist'', JDict [])] ''artist'' [''name''] = Inl KeyError
   \<and> render_segment example_env PartialFormatter [(''artist'', JDict [])]
         (Field ''artist'' [''name''] []) = Inr ''n/a''
   \<and> get_field [(''title'', JStr ''Song'')] ''title'' [] = Inr (JStr ''Song'')
   \<and> truthy (JStr ''Song'')
   \<and> builtin_format picky_env (JStr ''Song'') ''d'' = Inl ValueError
   \<and> render_segment picky_env PartialFormatter [(''title'', JStr ''Song'')]
         (Field ''title'' [] ''d'') = Inr ''n/a''
   \<and> list_all (absent_from bare_artist_hit) artist_format
   \<and> vformat example_env PartialFormatter artist_format bare_artist_hit
       = Inr ''n/a - (n/a releases)''"
proof -
  have table: "map_of search_possibles ''artist''
     = Some \<lparr>key = ''artists'', format = artist_format, requires_extra = False\<rparr>"
    by (simp add: search_possibles_def artist_format_def)
  have a: "map_of bare_artist_hit ''name'' = None"
    by (simp add: bare_artist_hit_def)
  have b: "formatter_get_field [(''artist'', JDict [])] ''artist'' [''name''] = Inl KeyError"
    by (simp add: formatter_get_field_def and_then_def)
  have c: "get_field [(''title'', JStr ''Song'')] ''title'' [] = Inr (JStr ''Song'')
      \<and> truthy (JStr ''Song'')
      \<and> builtin_format picky_env (JStr ''Song'') ''d'' = Inl ValueError"
    by (simp add: get_field_def formatter_get_field_def picky_env_def)
  have d: "list_all (absent_from bare_artist_hit) artist_format"
    by (simp add: absent_from_def bare_artist_hit_def artist_format_def)
  have e: "with_placeholders artist_format = ''n/a - (n/a releases)''"
    by (simp add: with_placeholders_def artist_format_def)
  note first = template_fields_render_placeholder
    [where kwargs = bare_artist_hit and first = "''name''" and rest = "[]" and spec = "[]"
       and E = example_env and format_string = artist_format]
  note second = template_fields_render_placeholder
    [where kwargs = "[(''artist'', JDict [])]" and first = "''artist''" and rest = "[''name'']"
       and spec = "[]" and E = example_env]
  note third = template_fields_render_placeholder
    [where kwargs = "[(''title'', JStr ''Song'')]" and first = "''title''" and rest = "[]"
       and spec = "''d''" and E = picky_env and val = "JStr ''Song''"]
  from first second third table a b c d e show ?thesis
    by simp
qed

section \<open>Fields with a false value\<close>

text \<open>
  C10. \<^verbatim>\<open>format_field\<close> of \<^verbatim>\<open>PartialFormatter\<close> gives the placeholder \<^verbatim>\<open>n/a\<close> for every
  value that Python takes for false, whatever the format specification: for 0, for the
  empty string and for \<^verbatim>\<open>None\<close> in particular; so a field that the hit has with such a
  value renders as \<^verbatim>\<open>n/a\<close> and not as the value.
\<close>

theorem falsy_fields_render_placeholder:
  "(\<not> truthy val \<longrightarrow> format_field E PartialFormatter val spec = Inr ''n/a'')
   \<and> format_field E PartialFormatter (JInt 0) spec = Inr ''n/a''
   \<and> format_field E PartialFormatter (JStr []) spec = Inr ''n/a''
   \<and> format_field E PartialFormatter JNull spec = Inr ''n/a''
   \<and> (map_of kwargs first = Some val \<and> \<not> truthy val \<longrightarrow>
        render_segment E PartialFormatter kwargs (Field first [] spec) = Inr ''n/a'')"
  by (simp add: format_field_falsy get_field_def formatter_get_field_def and_then_def)

text \<open>An artist hit with \<^verbatim>\<open>albums_count\<close> 0 is shown with \<^verbatim>\<open>n/a\<close> releases.\<close>

lemma idle_artist_search:
  "search_by_type idle_artist_env ''some query'' ''artist'' 10 False empty_ledger
     = (Inr (Some [Entry ''Band - (n/a releases)'' ''https://play.qobuz.com/artist/7'']),
        \<lparr>ledger = Some {}, trace = [SearchCall ''artist'' ''some query'' 10]\<rparr>)"
proof -
  have seven: "show_int 7 = ''7''" by code_simp
  show ?thesis
  by (simp add: search_by_type_def search_possibles_def idle_artist_env_def idle_artist_hit_def
      example_env_def empty_ledger_def emit_def and_then_def render_hit_def vformat_def
      get_field_def formatter_get_field_def format_field_def PartialFormatter_def Let_def
      WEB_URL_def seven)
qed


theorem falsy_fields_render_placeholder_witness:
  "\<not> truthy (JInt 0)
   \<and> format_field idle_artist_env PartialFormatter (JInt 0) [] = Inr ''n/a''
   \<and> map_of [(''name'', JStr ''Band''), (''albums_count'', JInt 0), (''id'', JInt 7)]
         ''albums_count'' = Some (JInt 0)
   \<and> render_segment idle_artist_env PartialFormatter
         [(''name'', JStr ''Band''), (''albums_count'', JInt 0), (''id'', JInt 7)]
         (Field ''albums_count'' [] []) = Inr ''n/a''
   \<and> search_by_type idle_artist_env ''some query'' ''artist'' 10 False empty_ledger
       = (Inr (Some [Entry ''Band - (n/a releases)'' ''https://play.qobuz.com/artist/7'']),
          \<lparr>ledger = Some {}, trace = [SearchCall ''artist'' ''some query'' 10]\<rparr>)"
proof -
  have a: "\<not> truthy (JInt 0)" by simp
  have b: "map_of [(''name'', JStr ''Band''), (''albums_count'', JInt 0), (''id'', JInt 7)]
         ''albums_count'' = Some (JInt 0)"
    by simp
  note inst = falsy_fields_render_placeholder
    [where val = "JInt 0" and E = idle_artist_env and spec = "[]" and first = "''albums_count''"
       and kwargs = "[(''name'', JStr ''Band''), (''albums_count'', JInt 0), (''id'', JInt 7)]"]
  from inst a b idle_artist_search show ?thesis
    by blast
qed

section \<open>The entries of the playlist\<close>

lemma audio_lists_same_length: "length (audio_files E local fs) = length (audio_rel_files local fs)"
  by (simp add: audio_files_def audio_rel_files_def)

lemma dir_entries_eq:
  "dir_entries E (local, fs) =
     List.map_filter
       (\<lambda>file. m3u_index E (join (basename (normpath local)) file) (abspath (cwd E) (join local file)))
       (filter recognized fs)"
proof -
  have z: "zip (map f xs) (map g xs) = map (\<lambda>x. (f x, g x)) xs" for f :: "string \<Rightarrow> string" and g :: "string \<Rightarrow> string" and xs
    by (induction xs) simp_all
  have m: "List.map_filter h (map k xs) = List.map_filter (\<lambda>x. h (k x)) xs"
    for h :: "string \<times> string \<Rightarrow> string option" and k :: "string \<Rightarrow> string \<times> string" and xs
    by (induction xs) (simp_all add: List.map_filter_simps split: option.splits)
  show ?thesis
    by (cases "filter recognized fs = []")
      (simp_all add: dir_entries_def visit_dir_def audio_files_def audio_rel_files_def Let_def z m
        recognized_def [abs_def] List.map_filter_simps)
qed

lemma m3u_index_readable: "m3u_index E rel audio_file \<noteq> None \<longleftrightarrow> readable E audio_file"
  by (auto simp: m3u_index_def readable_def split: option.splits)

lemma m3u_index_readable_ex: "(\<exists>entry. m3u_index E rel audio_file = Some entry) \<longleftrightarrow> readable E audio_file"
  using m3u_index_readable [of E rel audio_file] by auto

lemma length_map_filter: "length (List.map_filter f xs) = length (filter (\<lambda>x. f x \<noteq> None) xs)"
  by (induction xs) (auto simp: List.map_filter_simps split: option.splits)

lemma m3u_index_shape:
  "m3u_index E rel audio_file = Some entry \<Longrightarrow>
   \<exists>title artist len. entry = ''#EXTINF:'' @ show_int len @ '', '' @ artist @ '' - '' @ title @ [CHR 0x0A] @ rel"
  by (auto simp: m3u_index_def split: option.splits)

lemma dir_entries_members:
  "entry \<in> set (dir_entries E (local, fs)) \<longleftrightarrow>
     (\<exists>file \<in> set fs. recognized file \<and>
        m3u_index E (join (basename (normpath local)) file) (abspath (cwd E) (join local file)) = Some entry)"
  unfolding dir_entries_eq
  by (induction fs) (auto simp: List.map_filter_simps split: option.splits)

lemma count_entries:
  "length (concat (map (dir_entries E) w)) =
   length (filter (\<lambda>(local, file). readable E (abspath (cwd E) (join local file)))
     (concat (map (\<lambda>(local, fs). map (\<lambda>file. (local, file)) (filter recognized fs)) w)))"
proof (induction w)
  case Nil
  show ?case by simp
next
  case (Cons v w)
  obtain local fs where v: "v = (local, fs)" by (cases v)
  have "length (dir_entries E (local, fs)) =
     length (filter (\<lambda>(local, file). readable E (abspath (cwd E) (join local file)))
       (map (\<lambda>file. (local, file)) (filter recognized fs)))"
    by (simp add: dir_entries_eq length_map_filter m3u_index_readable_ex filter_map comp_def)
  with Cons show ?case by (simp add: v)
qed

lemma map_filter_append:
  "List.map_filter f (xs @ ys) = List.map_filter f xs @ List.map_filter f ys"
  by (simp add: List.map_filter_def)

lemma map_filter_map: "List.map_filter f (map g xs) = List.map_filter (\<lambda>x. f (g x)) xs"
  by (induction xs) (simp_all add: List.map_filter_simps split: option.splits)

lemma entries_of_walk:
  "concat (map (dir_entries E) w) =
   List.map_filter
     (\<lambda>(local, file). m3u_index E (join (basename (normpath local)) file) (abspath (cwd E) (join local file)))
     (concat (map (\<lambda>(local, fs). map (\<lambda>file. (local, file)) (filter recognized fs)) w))"
proof (induction w)
  case Nil
  show ?case by (simp add: List.map_filter_simps)
next
  case (Cons v w)
  obtain local fs where v: "v = (local, fs)" by (cases v)
  show ?case
    by (simp add: v Cons dir_entries_eq map_filter_append map_filter_map)
qed

lemma track_list_entries:
  "m3u_track_list E pl_directory =
     ''#EXTM3U'' #
     List.map_filter
       (\<lambda>(local, file). m3u_index E (join (basename (normpath local)) file) (abspath (cwd E) (join local file)))
       (candidates E pl_directory)"
  by (simp add: m3u_track_list_def candidates_def entries_of_walk)

lemma m3u_index_tags:
  "m3u_index E rel audio_file =
     map_option (\<lambda>tags. extinf_line tags @ [CHR 0x0A] @ rel) (read_tags E audio_file)"
  by (auto simp: m3u_index_def read_tags_def extinf_line_def split: option.splits)

lemma make_m3u_writes:
  "make_m3u E self pl_directory s =
     (if \<not> no_m3u_for_playlists self \<and> tl (m3u_track_list E pl_directory) \<noteq> []
      then emit (WriteFile (join pl_directory (basename (normpath pl_directory) @ ''.m3u''))
                   (str_join [CHR 0x0A, CHR 0x0A] (m3u_track_list E pl_directory))) s
      else s)"
  by (cases "tl (m3u_track_list E pl_directory)")
    (simp_all add: make_m3u_def Let_def m3u_track_list_def)

section \<open>One entry for every audio file whose tags are read\<close>

lemma ten: "show_int 10 = ''10''"
  by code_simp

lemma album_walk:
  "os_walk album_dir_env ''Music/PL'' = [(''Music/PL'', []), (''Music/PL/Album'', album_files)]"
  by (simp add: os_walk_def album_dir_env_def join_def)

lemma album_recognized: "filter recognized album_files = [''a.flac'', ''b.flac'', ''c.mp3'', ''bad.flac'']"
  unfolding album_files_def by code_simp

lemma album_candidates:
  "candidates album_dir_env ''Music/PL'' =
     [(''Music/PL/Album'', ''a.flac''), (''Music/PL/Album'', ''b.flac''),
      (''Music/PL/Album'', ''c.mp3''), (''Music/PL/Album'', ''bad.flac'')]"
  by (simp add: candidates_def album_walk album_recognized)

lemma album_abspaths:
  "abspath ''/home/user'' (join ''Music/PL/Album'' ''a.flac'') = ''/home/user/Music/PL/Album/a.flac''"
  "abspath ''/home/user'' (join ''Music/PL/Album'' ''b.flac'') = ''/home/user/Music/PL/Album/b.flac''"
  "abspath ''/home/user'' (join ''Music/PL/Album'' ''c.mp3'') = ''/home/user/Music/PL/Album/c.mp3''"
  "abspath ''/home/user'' (join ''Music/PL/Album'' ''bad.flac'') = ''/home/user/Music/PL/Album/bad.flac''"
  by code_simp+

lemma album_rel_paths:
  "join (basename (normpath ''Music/PL/Album'')) ''a.flac'' = ''Album/a.flac''"
  "join (basename (normpath ''Music/PL/Album'')) ''b.flac'' = ''Album/b.flac''"
  "join (basename (normpath ''Music/PL/Album'')) ''c.mp3'' = ''Album/c.mp3''"
  "join (basename (normpath ''Music/PL/Album'')) ''bad.flac'' = ''Album/bad.flac''"
  by code_simp+

lemma album_cwd: "cwd album_dir_env = ''/home/user''"
  by (simp add: album_dir_env_def example_env_def)

lemma album_index:
  "m3u_index album_dir_env rel p =
     (if p = ''/home/user/Music/PL/Album/bad.flac'' then None else Some (extinf rel))"
  by (simp add: m3u_index_def album_dir_env_def first_of_def extinf_def ten)

lemma album_tags:
  "read_tags album_dir_env p =
     (if p = ''/home/user/Music/PL/Album/bad.flac'' then None else Some (10, ''A'', ''T''))"
  by (simp add: read_tags_def album_dir_env_def first_of_def)

lemma album_extinf_line: "extinf_line (10, ''A'', ''T'') @ CHR 0x0A # rel = extinf rel"
  by (simp add: extinf_line_def extinf_def ten)

lemma album_readable:
  "filter (\<lambda>(local, file). readable album_dir_env (abspath (cwd album_dir_env) (join local file)))
     (candidates album_dir_env ''Music/PL'') =
     [(''Music/PL/Album'', ''a.flac''), (''Music/PL/Album'', ''b.flac''),
      (''Music/PL/Album'', ''c.mp3'')]"
proof -
  have r: "readable album_dir_env p \<longleftrightarrow> p \<noteq> ''/home/user/Music/PL/Album/bad.flac''" for p
    by (simp add: readable_def album_dir_env_def first_of_def)
  show ?thesis
    by (simp add: album_candidates album_cwd r album_abspaths)
qed

lemma basename_no_sep: "CHR ''/'' \<notin> set (basename p)"
  by (auto simp: basename_def dest: set_takeWhileD)

lemma m3u_track_list_length:
  "length (m3u_track_list E pl_directory) =
     1 + length (filter (\<lambda>(local, file). readable E (abspath (cwd E) (join local file)))
                   (candidates E pl_directory))"
  by (simp add: m3u_track_list_def candidates_def count_entries)

lemma entries_start_with_extinf:
  assumes "entry \<in> set (tl (m3u_track_list E pl_directory))"
  shows "prefix ''#EXTINF:'' entry"
proof -
  from assms obtain local fs where "entry \<in> set (dir_entries E (local, fs))"
    by (auto simp: m3u_track_list_def)
  then obtain rel audio_file where "m3u_index E rel audio_file = Some entry"
    by (auto simp: dir_entries_members)
  from m3u_index_shape [OF this] show ?thesis by auto
qed

text \<open>
  C7. Whatever the directory tree: the track list of \<^verbatim>\<open>make_m3u\<close> is the header followed,
  in the order of the walk, by the entry of every recognised audio file under the
  directory for which the \<^verbatim>\<open>try\<close> block gives one, each file being read at its own
  absolute path and listed under its own relative path. The \<^verbatim>\<open>try\<close> block gives no entry
  exactly when the tags of the file are not read: such a file adds nothing and stops
  nothing. So the list has one entry for every recognised file whose tags are read,
  every entry starting with \<^verbatim>\<open>#EXTINF:\<close>. The playlist file is written if and only if
  playlists are not disabled and there is such a file, and then under the name of the
  directory, which holds no separator, joined to the directory itself.
\<close>

theorem make_m3u_one_entry_per_readable_file:
  "m3u_track_list E pl_directory =
     ''#EXTM3U'' #
     List.map_filter
       (\<lambda>(local, file).
          m3u_index E (join (basename (normpath local)) file) (abspath (cwd E) (join local file)))
       (candidates E pl_directory)
   \<and> (\<forall>rel audio_file. (m3u_index E rel audio_file = None) = (\<not> readable E audio_file))
   \<and> length (m3u_track_list E pl_directory) =
       1 + length (filter (\<lambda>(local, file). readable E (abspath (cwd E) (join local file)))
                     (candidates E pl_directory))
   \<and> (\<forall>entry \<in> set (tl (m3u_track_list E pl_directory)). prefix ''#EXTINF:'' entry)
   \<and> make_m3u E self pl_directory s =
       (if \<not> no_m3u_for_playlists self
           \<and> filter (\<lambda>(local, file). readable E (abspath (cwd E) (join local file)))
                (candidates E pl_directory) \<noteq> []
        then emit (WriteFile (join pl_directory (basename (normpath pl_directory) @ ''.m3u''))
                     (str_join [CHR 0x0A, CHR 0x0A] (m3u_track_list E pl_directory))) s
        else s)
   \<and> CHR ''/'' \<notin> set (basename (normpath pl_directory) @ ''.m3u'')"
proof (intro conjI)
  show "m3u_track_list E pl_directory =
     ''#EXTM3U'' #
     List.map_filter
       (\<lambda>(local, file).
          m3u_index E (join (basename (normpath local)) file) (abspath (cwd E) (join local file)))
       (candidates E pl_directory)"
    by (rule track_list_entries)
  show "\<forall>rel audio_file. (m3u_index E rel audio_file = None) = (\<not> readable E audio_file)"
    using m3u_index_readable by blast
  show "length (m3u_track_list E pl_directory) =
     1 + length (filter (\<lambda>(local, file). readable E (abspath (cwd E) (join local file)))
                   (candidates E pl_directory))"
    by (rule m3u_track_list_length)
  show "\<forall>entry \<in> set (tl (m3u_track_list E pl_directory)). prefix ''#EXTINF:'' entry"
    by (blast intro: entries_start_with_extinf)
  show "make_m3u E self pl_directory s =
       (if \<not> no_m3u_for_playlists self
           \<and> filter (\<lambda>(local, file). readable E (abspath (cwd E) (join local file)))
                (candidates E pl_directory) \<noteq> []
        then emit (WriteFile (join pl_directory (basename (normpath pl_directory) @ ''.m3u''))
                     (str_join [CHR 0x0A, CHR 0x0A] (m3u_track_list E pl_directory))) s
        else s)"
    using m3u_track_list_length [of E pl_directory]
    by (cases "filter (\<lambda>(local, file). readable E (abspath (cwd E) (join local file)))
                (candidates E pl_directory)") (simp_all add: make_m3u_def Let_def)
  show "CHR ''/'' \<notin> set (basename (normpath pl_directory) @ ''.m3u'')"
    using basename_no_sep [of "normpath pl_directory"] by simp
qed

theorem make_m3u_one_entry_per_readable_file_witness:
  "candidates album_dir_env ''Music/PL'' =
     [(''Music/PL/Album'', ''a.flac''), (''Music/PL/Album'', ''b.flac''),
      (''Music/PL/Album'', ''c.mp3''), (''Music/PL/Album'', ''bad.flac'')]
   \<and> \<not> readable album_dir_env ''/home/user/Music/PL/Album/bad.flac''
   \<and> \<not> no_m3u_for_playlists example_config
   \<and> m3u_track_list album_dir_env ''Music/PL'' =
       [''#EXTM3U'', extinf ''Album/a.flac'', extinf ''Album/b.flac'', extinf ''Album/c.mp3'']
   \<and> length (m3u_track_list album_dir_env ''Music/PL'') = 4
   \<and> list_all (prefix ''#EXTINF:'') (tl (m3u_track_list album_dir_env ''Music/PL''))
   \<and> make_m3u album_dir_env example_config ''Music/PL'' empty_ledger =
       emit (WriteFile ''Music/PL/PL.m3u''
               (str_join [CHR 0x0A, CHR 0x0A] (m3u_track_list album_dir_env ''Music/PL'')))
         empty_ledger"
proof -
  have bad: "\<not> readable album_dir_env ''/home/user/Music/PL/Album/bad.flac''"
    by (simp add: readable_def album_dir_env_def)
  have flag: "\<not> no_m3u_for_playlists example_config"
    by (simp add: example_config_def)
  have name: "join ''Music/PL'' (basename (normpath ''Music/PL'') @ ''.m3u'') = ''Music/PL/PL.m3u''"
    by code_simp
  note inst = make_m3u_one_entry_per_readable_file
    [of album_dir_env "''Music/PL''" example_config empty_ledger]
  have entries: "m3u_track_list album_dir_env ''Music/PL'' =
       [''#EXTM3U'', extinf ''Album/a.flac'', extinf ''Album/b.flac'', extinf ''Album/c.mp3'']"
    using inst [THEN conjunct1] unfolding album_candidates
    by (simp add: List.map_filter_simps album_cwd album_abspaths album_rel_paths album_index)
  have len: "length (m3u_track_list album_dir_env ''Music/PL'') = 4"
    using inst [THEN conjunct2, THEN conjunct2, THEN conjunct1] unfolding album_readable by simp
  have pre: "list_all (prefix ''#EXTINF:'') (tl (m3u_track_list album_dir_env ''Music/PL''))"
    using inst [THEN conjunct2, THEN conjunct2, THEN conjunct2, THEN conjunct1]
    by (simp add: list_all_iff)
  have mk: "make_m3u album_dir_env example_config ''Music/PL'' empty_ledger =
       emit (WriteFile ''Music/PL/PL.m3u''
               (str_join [CHR 0x0A, CHR 0x0A] (m3u_track_list album_dir_env ''Music/PL'')))
         empty_ledger"
    using inst [THEN conjunct2, THEN conjunct2, THEN conjunct2, THEN conjunct2, THEN conjunct1] flag
    unfolding album_readable name by simp
  from album_candidates bad flag entries len pre mk show ?thesis
    by blast
qed

section \<open>The path line of an entry\<close>

lemma flat_walk: "os_walk flat_env ''Music/PL'' = [(''Music/PL'', [''x.flac''])]"
  by (simp add: os_walk_def flat_env_def)

lemma flat_paths:
  "recognized ''x.flac''"
  "join (basename (normpath ''Music/PL'')) ''x.flac'' = ''PL/x.flac''"
  "abspath ''/home/user'' (join ''Music/PL'' ''x.flac'') = ''/home/user/Music/PL/x.flac''"
  "join ''Music/PL'' (basename (normpath ''Music/PL'') @ ''.m3u'') = ''Music/PL/PL.m3u''"
  "normpath (join ''Music/PL'' ''PL/x.flac'') = ''Music/PL/PL/x.flac''"
  "normpath (join ''Music/PL'' ''x.flac'') = ''Music/PL/x.flac''"
  by code_simp+

lemma flat_track_list: "m3u_track_list flat_env ''Music/PL'' = [''#EXTM3U'', extinf ''PL/x.flac'']"
proof -
  have cwd: "cwd flat_env = ''/home/user''"
    by (simp add: flat_env_def example_env_def)
  have idx: "m3u_index flat_env rel audio_file = Some (extinf rel)" for rel audio_file
    by (simp add: m3u_index_def flat_env_def first_of_def extinf_def ten)
  show ?thesis
    by (simp add: m3u_track_list_def flat_walk dir_entries_eq flat_paths cwd idx
        List.map_filter_simps)
qed

text \<open>
  An audio file at the top of the playlist directory \<^verbatim>\<open>Music/PL\<close>: its path line is
  \<^verbatim>\<open>PL/x.flac\<close>, which read from the directory of the playlist file is
  \<^verbatim>\<open>Music/PL/PL/x.flac\<close>, while the file is \<^verbatim>\<open>Music/PL/x.flac\<close>.
\<close>

theorem top_level_file_gets_wrong_path:
  "candidates flat_env ''Music/PL'' = [(''Music/PL'', ''x.flac'')]
   \<and> m3u_track_list flat_env ''Music/PL'' = [''#EXTM3U'', extinf ''PL/x.flac'']
   \<and> make_m3u flat_env example_config ''Music/PL'' empty_ledger =
       emit (WriteFile ''Music/PL/PL.m3u''
               (str_join [CHR 0x0A, CHR 0x0A] [''#EXTM3U'', extinf ''PL/x.flac'']))
         empty_ledger
   \<and> normpath (join ''Music/PL'' ''PL/x.flac'') = ''Music/PL/PL/x.flac''
   \<and> normpath (join ''Music/PL'' ''x.flac'') = ''Music/PL/x.flac''"
  by (simp add: candidates_def flat_walk flat_paths flat_track_list make_m3u_def
      example_config_def)

lemma subdirectory_is_walked:
  assumes "tree_at E pl_directory = Some (Dir top_files subs)" and "(d, Dir fs deeper) \<in> set subs"
  shows "(join pl_directory d, fs) \<in> set (os_walk E pl_directory)"
proof -
  from assms(2) have "(d, Dir fs deeper) \<in> set (sort_key fst subs)" by simp
  then have "(join pl_directory d, fs)
      \<in> set (concat (map (\<lambda>(name, sub). walk (join pl_directory name) sub) (sort_key fst subs)))"
    by (auto intro!: bexI [of _ "(d, Dir fs deeper)"])
  with assms(1) show ?thesis by (simp add: os_walk_def)
qed

lemma walked_file_is_candidate:
  assumes "(local, fs) \<in> set (os_walk E pl_directory)" and "file \<in> set fs" and "recognized file"
  shows "(local, file) \<in> set (candidates E pl_directory)"
  using assms by (auto simp: candidates_def intro!: bexI [of _ "(local, fs)"])

lemma map_filter_member: "f x = Some y \<Longrightarrow> x \<in> set xs \<Longrightarrow> y \<in> set (List.map_filter f xs)"
  by (induction xs) (auto simp: List.map_filter_simps split: option.splits)

text \<open>
  C8, as the code has it. The entries of the playlist are, in the order of the walk,
  those of the recognised audio files whose tags are read: the \<^verbatim>\<open>#EXTINF\<close> line made of
  the tags of the file, and after it, as the path line, the base name of the directory
  the file lies in, joined with the name of the file. A recognised file in an immediate
  sub-directory \<open>d\<close> of the playlist directory is among these files; its path line is
  \<open>d\<close> joined with its name, which joined to the playlist directory is the path of the
  file; and when its tags are read, its entry with this path line is in the playlist.
  The playlist file is written into the playlist directory.
\<close>

theorem subdirectory_files_get_relative_paths:
  "tl (m3u_track_list E pl_directory) =
     List.map_filter
       (\<lambda>(local, file).
          map_option (\<lambda>tags. extinf_line tags @ [CHR 0x0A] @ join (basename (normpath local)) file)
            (read_tags E (abspath (cwd E) (join local file))))
       (candidates E pl_directory)
   \<and> (tree_at E pl_directory = Some (Dir top_files subs) \<and> (d, Dir fs deeper) \<in> set subs
        \<and> plain_name d \<and> fname \<in> set fs \<and> recognized fname \<and> CHR ''/'' \<notin> set fname \<longrightarrow>
      (join pl_directory d, fname) \<in> set (candidates E pl_directory)
      \<and> join (basename (normpath (join pl_directory d))) fname = join d fname
      \<and> join pl_directory (join d fname) = join (join pl_directory d) fname
      \<and> (\<forall>tags. read_tags E (abspath (cwd E) (join (join pl_directory d) fname)) = Some tags \<longrightarrow>
           extinf_line tags @ [CHR 0x0A] @ join d fname \<in> set (tl (m3u_track_list E pl_directory))))
   \<and> (\<not> no_m3u_for_playlists self \<and> tl (m3u_track_list E pl_directory) \<noteq> [] \<longrightarrow>
        make_m3u E self pl_directory s =
          emit (WriteFile (join pl_directory (basename (normpath pl_directory) @ ''.m3u''))
                  (str_join [CHR 0x0A, CHR 0x0A] (m3u_track_list E pl_directory))) s)"
proof (intro conjI impI allI)
  show entries: "tl (m3u_track_list E pl_directory) =
     List.map_filter
       (\<lambda>(local, file).
          map_option (\<lambda>tags. extinf_line tags @ [CHR 0x0A] @ join (basename (normpath local)) file)
            (read_tags E (abspath (cwd E) (join local file))))
       (candidates E pl_directory)"
    by (simp add: track_list_entries m3u_index_tags)
  {
    assume hyp: "tree_at E pl_directory = Some (Dir top_files subs) \<and> (d, Dir fs deeper) \<in> set subs
        \<and> plain_name d \<and> fname \<in> set fs \<and> recognized fname \<and> CHR ''/'' \<notin> set fname"
    from hyp have d: "plain_name d" by simp
    from hyp have "(join pl_directory d, fs) \<in> set (os_walk E pl_directory)"
      by (blast intro: subdirectory_is_walked)
    with hyp show cand: "(join pl_directory d, fname) \<in> set (candidates E pl_directory)"
      by (blast intro: walked_file_is_candidate)
    show rel: "join (basename (normpath (join pl_directory d))) fname = join d fname"
      unfolding basename_normpath_join [OF d] ..
    from hyp have "\<not> prefix ''/'' fname"
      by (cases fname) auto
    with d show "join pl_directory (join d fname) = join (join pl_directory d) fname"
      by (rule join_assoc_plain)
    fix tags
    assume tags: "read_tags E (abspath (cwd E) (join (join pl_directory d) fname)) = Some tags"
    define entry_of where "entry_of =
      (\<lambda>(local, file).
          map_option (\<lambda>tags. extinf_line tags @ [CHR 0x0A] @ join (basename (normpath local)) file)
            (read_tags E (abspath (cwd E) (join local file))))"
    have "entry_of (join pl_directory d, fname) = Some (extinf_line tags @ [CHR 0x0A] @ join d fname)"
      by (simp add: entry_of_def tags rel)
    from map_filter_member [of entry_of, OF this cand]
    show "extinf_line tags @ [CHR 0x0A] @ join d fname \<in> set (tl (m3u_track_list E pl_directory))"
      unfolding entries entry_of_def .
  }
  assume "\<not> no_m3u_for_playlists self \<and> tl (m3u_track_list E pl_directory) \<noteq> []"
  then show "make_m3u E self pl_directory s =
          emit (WriteFile (join pl_directory (basename (normpath pl_directory) @ ''.m3u''))
                  (str_join [CHR 0x0A, CHR 0x0A] (m3u_track_list E pl_directory))) s"
    by (simp add: make_m3u_writes)
qed

theorem subdirectory_files_get_relative_paths_witness:
  "tree_at album_dir_env ''Music/PL'' = Some (Dir [] [(''Album'', Dir album_files [])])
   \<and> plain_name ''Album''
   \<and> ''a.flac'' \<in> set album_files \<and> recognized ''a.flac'' \<and> CHR ''/'' \<notin> set ''a.flac''
   \<and> read_tags album_dir_env ''/home/user/Music/PL/Album/a.flac'' = Some (10, ''A'', ''T'')
   \<and> \<not> no_m3u_for_playlists example_config
   \<and> tl (m3u_track_list album_dir_env ''Music/PL'') =
       [extinf ''Album/a.flac'', extinf ''Album/b.flac'', extinf ''Album/c.mp3'']
   \<and> (''Music/PL/Album'', ''a.flac'') \<in> set (candidates album_dir_env ''Music/PL'')
   \<and> join (basename (normpath ''Music/PL/Album'')) ''a.flac'' = ''Album/a.flac''
   \<and> join ''Music/PL'' ''Album/a.flac'' = ''Music/PL/Album/a.flac''
   \<and> extinf ''Album/a.flac'' \<in> set (tl (m3u_track_list album_dir_env ''Music/PL''))
   \<and> make_m3u album_dir_env example_config ''Music/PL'' empty_ledger =
       emit (WriteFile ''Music/PL/PL.m3u''
               (str_join [CHR 0x0A, CHR 0x0A]
                  [''#EXTM3U'', extinf ''Album/a.flac'', extinf ''Album/b.flac'',
                   extinf ''Album/c.mp3'']))
         empty_ledger"
proof -
  have tree: "tree_at album_dir_env ''Music/PL'' = Some (Dir [] [(''Album'', Dir album_files [])])"
    by (simp add: album_dir_env_def)
  have plain: "plain_name ''Album''"
    by (simp add: plain_name_def)
  have "recognized ''a.flac''"
    by code_simp
  then have a: "''a.flac'' \<in> set album_files \<and> recognized ''a.flac'' \<and> CHR ''/'' \<notin> set ''a.flac''"
    by (simp add: album_files_def)
  have tags: "read_tags album_dir_env ''/home/user/Music/PL/Album/a.flac'' = Some (10, ''A'', ''T'')"
    by (simp add: album_tags)
  have flag: "\<not> no_m3u_for_playlists example_config"
    by (simp add: example_config_def)
  have sub: "join ''Music/PL'' ''Album'' = ''Music/PL/Album''"
    by (simp add: join_def)
  have paths: "join ''Album'' ''a.flac'' = ''Album/a.flac''"
    "join ''Music/PL/Album'' ''a.flac'' = ''Music/PL/Album/a.flac''"
    "join ''Music/PL'' (basename (normpath ''Music/PL'') @ ''.m3u'') = ''Music/PL/PL.m3u''"
    by code_simp+
  note inst = subdirectory_files_get_relative_paths
    [where E = album_dir_env and pl_directory = "''Music/PL''" and d = "''Album''"
       and fs = album_files and top_files = "[]" and subs = "[(''Album'', Dir album_files [])]"
       and deeper = "[]" and fname = "''a.flac''" and self = example_config and s = empty_ledger,
     unfolded sub paths]
  have entries: "tl (m3u_track_list album_dir_env ''Music/PL'') =
       [extinf ''Album/a.flac'', extinf ''Album/b.flac'', extinf ''Album/c.mp3'']"
    using inst [THEN conjunct1] unfolding album_candidates
    by (simp add: List.map_filter_simps album_cwd album_abspaths album_rel_paths album_tags
        album_extinf_line)
  from inst [THEN conjunct2, THEN conjunct1] tree plain a
  have sub_file: "(''Music/PL/Album'', ''a.flac'') \<in> set (candidates album_dir_env ''Music/PL'')
      \<and> join (basename (normpath ''Music/PL/Album'')) ''a.flac'' = ''Album/a.flac''
      \<and> join ''Music/PL'' ''Album/a.flac'' = ''Music/PL/Album/a.flac''
      \<and> (\<forall>tags. read_tags album_dir_env (abspath (cwd album_dir_env) ''Music/PL/Album/a.flac'') = Some tags \<longrightarrow>
           extinf_line tags @ [CHR 0x0A] @ ''Album/a.flac'' \<in> set (tl (m3u_track_list album_dir_env ''Music/PL'')))"
    by simp
  have abs: "abspath (cwd album_dir_env) ''Music/PL/Album/a.flac'' = ''/home/user/Music/PL/Album/a.flac''"
    unfolding album_cwd by code_simp
  from sub_file tags
  have "extinf_line (10, ''A'', ''T'') @ [CHR 0x0A] @ ''Album/a.flac''
      \<in> set (tl (m3u_track_list album_dir_env ''Music/PL''))"
    unfolding abs by blast
  then have listed: "extinf ''Album/a.flac'' \<in> set (tl (m3u_track_list album_dir_env ''Music/PL''))"
    by (simp add: album_extinf_line)
  have whole: "m3u_track_list album_dir_env ''Music/PL'' =
       [''#EXTM3U'', extinf ''Album/a.flac'', extinf ''Album/b.flac'', extinf ''Album/c.mp3'']"
    using entries by (simp add: m3u_track_list_def)
  from inst [THEN conjunct2, THEN conjunct2] flag entries
  have mk: "make_m3u album_dir_env example_config ''Music/PL'' empty_ledger =
       emit (WriteFile ''Music/PL/PL.m3u''
               (str_join [CHR 0x0A, CHR 0x0A]
                  [''#EXTM3U'', extinf ''Album/a.flac'', extinf ''Album/b.flac'',
                   extinf ''Album/c.mp3'']))
         empty_ledger"
    unfolding whole by simp
  from sub_file have cand: "(''Music/PL/Album'', ''a.flac'') \<in> set (candidates album_dir_env ''Music/PL'')"
    and rel: "join (basename (normpath ''Music/PL/Album'')) ''a.flac'' = ''Album/a.flac''"
    and res: "join ''Music/PL'' ''Album/a.flac'' = ''Music/PL/Album/a.flac''"
    by simp_all
  from a have a1: "''a.flac'' \<in> set album_files" and a2: "recognized ''a.flac''"
    and a3: "CHR ''/'' \<notin> set ''a.flac''"
    by simp_all
  show ?thesis
    by (intro conjI) (rule tree plain a1 a2 a3 tags flag entries cand rel res listed mk)+
qed

section \<open>The two lists of a directory\<close>

lemma zip_of_maps: "zip (map f xs) (map g xs) = map (\<lambda>x. (f x, g x)) xs"
  by (induction xs) simp_all

lemma no_audio_files:
  "audio_files E local fs = [] \<longleftrightarrow> (\<forall>file \<in> set fs. splitext_ext file \<notin> set EXTENSIONS)"
  by (auto simp: audio_files_def filter_empty_conv)

text \<open>
  C9. For every visited directory the list of absolute paths and the list of relative
  paths have the same length, so the second half of the guard never holds. The guard
  holds, and the directory is passed over, exactly when none of its files has a
  recognised extension; a directory with such a file is gone through, every one of its
  recognised files being tried under its relative and its absolute path. Without the
  guard the directory would add the same entries.
\<close>

theorem audio_lists_have_equal_length:
  "length (audio_files E local fs) = length (audio_rel_files local fs)
   \<and> ((audio_files E local fs = [] \<or> length (audio_files E local fs) \<noteq> length (audio_rel_files local fs))
        \<longleftrightarrow> (\<forall>file \<in> set fs. splitext_ext file \<notin> set EXTENSIONS))
   \<and> (visit_dir E (local, fs) = Skipped
        \<longleftrightarrow> (\<forall>file \<in> set fs. splitext_ext file \<notin> set EXTENSIONS))
   \<and> visit_dir E (local, fs) =
       (if \<forall>file \<in> set fs. splitext_ext file \<notin> set EXTENSIONS then Skipped
        else Scanned
               (List.map_filter (\<lambda>(audio_rel_file, audio_file). m3u_index E audio_rel_file audio_file)
                  (zip (audio_rel_files local fs) (audio_files E local fs))))
   \<and> zip (audio_rel_files local fs) (audio_files E local fs) =
       map (\<lambda>file. (join (basename (normpath local)) file, abspath (cwd E) (join local file)))
         (filter (\<lambda>file. splitext_ext file \<in> set EXTENSIONS) fs)
   \<and> dir_entries E (local, fs) =
       List.map_filter (\<lambda>(audio_rel_file, audio_file). m3u_index E audio_rel_file audio_file)
         (zip (audio_rel_files local fs) (audio_files E local fs))"
proof -
  have same: "length (audio_files E local fs) = length (audio_rel_files local fs)"
    by (rule audio_lists_same_length)
  note none = no_audio_files [of E local fs]
  have visit: "visit_dir E (local, fs) =
       (if \<forall>file \<in> set fs. splitext_ext file \<notin> set EXTENSIONS then Skipped
        else Scanned
               (List.map_filter (\<lambda>(audio_rel_file, audio_file). m3u_index E audio_rel_file audio_file)
                  (zip (audio_rel_files local fs) (audio_files E local fs))))"
    unfolding none [symmetric] by (simp add: visit_dir_def Let_def same)
  have skipped: "visit_dir E (local, fs) = Skipped
        \<longleftrightarrow> (\<forall>file \<in> set fs. splitext_ext file \<notin> set EXTENSIONS)"
    unfolding visit by simp
  have pairs: "zip (audio_rel_files local fs) (audio_files E local fs) =
       map (\<lambda>file. (join (basename (normpath local)) file, abspath (cwd E) (join local file)))
         (filter (\<lambda>file. splitext_ext file \<in> set EXTENSIONS) fs)"
    by (simp add: audio_files_def audio_rel_files_def zip_of_maps)
  have entries: "dir_entries E (local, fs) =
       List.map_filter (\<lambda>(audio_rel_file, audio_file). m3u_index E audio_rel_file audio_file)
         (zip (audio_rel_files local fs) (audio_files E local fs))"
  proof (cases "audio_files E local fs = []")
    case True
    then show ?thesis
      by (simp add: dir_entries_def visit_dir_def Let_def List.map_filter_simps)
  next
    case False
    then show ?thesis
      by (simp add: dir_entries_def visit_dir_def Let_def same)
  qed
  from same none skipped visit pairs entries show ?thesis
    by simp
qed

theorem audio_lists_have_equal_length_witness:
  "audio_rel_files ''Music/PL/Album'' album_files
     = [''Album/a.flac'', ''Album/b.flac'', ''Album/c.mp3'', ''Album/bad.flac'']
   \<and> length (audio_files album_dir_env ''Music/PL/Album'' album_files) = 4
   \<and> list_ex (\<lambda>file. splitext_ext file \<in> set EXTENSIONS) album_files
   \<and> visit_dir album_dir_env (''Music/PL/Album'', album_files) =
       Scanned [extinf ''Album/a.flac'', extinf ''Album/b.flac'', extinf ''Album/c.mp3'']
   \<and> dir_entries album_dir_env (''Music/PL/Album'', album_files) =
       [extinf ''Album/a.flac'', extinf ''Album/b.flac'', extinf ''Album/c.mp3'']
   \<and> list_all (\<lambda>file. splitext_ext file \<notin> set EXTENSIONS) [''cover.jpg'', ''notes.txt'']
   \<and> audio_files album_dir_env ''Music/PL/Album'' [''cover.jpg'', ''notes.txt''] = []
   \<and> visit_dir album_dir_env (''Music/PL/Album'', [''cover.jpg'', ''notes.txt'']) = Skipped
   \<and> dir_entries album_dir_env (''Music/PL/Album'', [''cover.jpg'', ''notes.txt'']) = []"
proof -
  have rels: "audio_rel_files ''Music/PL/Album'' album_files
     = [''Album/a.flac'', ''Album/b.flac'', ''Album/c.mp3'', ''Album/bad.flac'']"
    unfolding album_files_def by code_simp
  have some: "list_ex (\<lambda>file. splitext_ext file \<in> set EXTENSIONS) album_files"
    unfolding album_files_def by code_simp
  then have not_all: "\<not> (\<forall>file \<in> set album_files. splitext_ext file \<notin> set EXTENSIONS)"
    unfolding list_ex_iff by blast
  have others: "list_all (\<lambda>file. splitext_ext file \<notin> set EXTENSIONS) [''cover.jpg'', ''notes.txt'']"
    by code_simp
  then have all: "\<forall>file \<in> set [''cover.jpg'', ''notes.txt'']. splitext_ext file \<notin> set EXTENSIONS"
    unfolding list_all_iff .
  have kept: "filter (\<lambda>file. splitext_ext file \<in> set EXTENSIONS) album_files
      = [''a.flac'', ''b.flac'', ''c.mp3'', ''bad.flac'']"
    using album_recognized by (simp add: recognized_def [abs_def])
  note first = audio_lists_have_equal_length [of album_dir_env "''Music/PL/Album''" album_files]
  note second = audio_lists_have_equal_length
    [of album_dir_env "''Music/PL/Album''" "[''cover.jpg'', ''notes.txt'']"]
  from first have len: "length (audio_files album_dir_env ''Music/PL/Album'' album_files) = 4"
    unfolding rels by simp
  from first
  have pairs: "zip (audio_rel_files ''Music/PL/Album'' album_files)
        (audio_files album_dir_env ''Music/PL/Album'' album_files) =
      [(''Album/a.flac'', ''/home/user/Music/PL/Album/a.flac''),
       (''Album/b.flac'', ''/home/user/Music/PL/Album/b.flac''),
       (''Album/c.mp3'', ''/home/user/Music/PL/Album/c.mp3''),
       (''Album/bad.flac'', ''/home/user/Music/PL/Album/bad.flac'')]"
    unfolding kept by (simp add: album_cwd album_abspaths album_rel_paths)
  from first not_all
  have scanned: "visit_dir album_dir_env (''Music/PL/Album'', album_files) =
       Scanned [extinf ''Album/a.flac'', extinf ''Album/b.flac'', extinf ''Album/c.mp3'']"
    unfolding pairs by (simp add: List.map_filter_simps album_index)
  from first
  have entries: "dir_entries album_dir_env (''Music/PL/Album'', album_files) =
       [extinf ''Album/a.flac'', extinf ''Album/b.flac'', extinf ''Album/c.mp3'']"
    unfolding pairs by (simp add: List.map_filter_simps album_index)
  from second all
  have empty: "audio_files album_dir_env ''Music/PL/Album'' [''cover.jpg'', ''notes.txt''] = []
      \<and> visit_dir album_dir_env (''Music/PL/Album'', [''cover.jpg'', ''notes.txt'']) = Skipped"
    by blast
  from second empty
  have no_entries: "dir_entries album_dir_env (''Music/PL/Album'', [''cover.jpg'', ''notes.txt'']) = []"
    by (simp add: List.map_filter_simps)
  from empty have e1: "audio_files album_dir_env ''Music/PL/Album'' [''cover.jpg'', ''notes.txt''] = []"
    and e2: "visit_dir album_dir_env (''Music/PL/Album'', [''cover.jpg'', ''notes.txt'']) = Skipped"
    by simp_all
  show ?thesis
    by (intro conjI) (rule rels len some scanned entries others e1 e2 no_entries)+
qed

section \<open>Pairing artists and titles of a foreign playlist\<close>

lemma lastfm_track_list_nth:
  assumes "length artist_names = length track_titles" and "artist_names \<noteq> []"
  shows "lastfm_track_list artist_names track_titles =
     map (\<lambda>i. artist_names ! i @ '' '' @ track_titles ! i) [0..<length artist_names]"
  using assms by (auto simp: lastfm_track_list_def intro!: nth_equalityI)

lemma lastfm_track_list_empty:
  "lastfm_track_list artist_names track_titles = [] \<longleftrightarrow>
     length artist_names \<noteq> length track_titles \<or> artist_names = [] \<or> track_titles = []"
  by (auto simp: lastfm_track_list_def)

text \<open>
  C6. For a fetched page whose artist and title lists differ in length, or one of which
  is empty, \<^verbatim>\<open>download_lastfm_pl\<close> returns without an exception after the log line that
  nothing was found: no search, no download. For lists of equal length that are not
  empty, the \<open>i\<close>-th query is the \<open>i\<close>-th artist, a space and the \<open>i\<close>-th title, and these
  are the queries the import goes through, in this order.
\<close>

theorem lastfm_import_pairs_or_queues_nothing:
  "(http_get E playlist_url = Inr soup
      \<and> (length (artists soup) \<noteq> length (titles soup) \<or> artists soup = [] \<or> titles soup = [])
      \<longrightarrow> download_lastfm_pl E self playlist_url s
           = (None, s\<lparr>trace := trace s @ [HttpGet playlist_url, Log NothingFound]\<rparr>))
   \<and> (length artist_names = length track_titles \<and> artist_names \<noteq> [] \<longrightarrow>
        length (lastfm_track_list artist_names track_titles) = length artist_names
        \<and> (\<forall>i < length artist_names.
              lastfm_track_list artist_names track_titles ! i
                = artist_names ! i @ '' '' @ track_titles ! i))
   \<and> (http_get E playlist_url = Inr soup
        \<and> length (artists soup) = length (titles soup) \<and> artists soup \<noteq> []
        \<and> heading soup = Some h1 \<and> sanitize_filename E (JStr h1) = Inr pl_title
      \<longrightarrow> download_lastfm_pl E self playlist_url s
           = (case for_each (lastfm_track E self (join (directory self) pl_title))
                     (map (\<lambda>i. artists soup ! i @ '' '' @ titles soup ! i)
                        [0..<length (artists soup)])
                     (s\<lparr>trace := trace s @
                          [HttpGet playlist_url,
                           Log (DownloadingPlaylist pl_title (length (artists soup)))]\<rparr>) of
                (Some e, s3) \<Rightarrow> (Some e, s3)
              | (None, s3) \<Rightarrow> (None, make_m3u E self (join (directory self) pl_title) s3)))"
proof (intro conjI impI)
  assume "http_get E playlist_url = Inr soup
      \<and> (length (artists soup) \<noteq> length (titles soup) \<or> artists soup = [] \<or> titles soup = [])"
  then show "download_lastfm_pl E self playlist_url s
           = (None, s\<lparr>trace := trace s @ [HttpGet playlist_url, Log NothingFound]\<rparr>)"
    using lastfm_track_list_empty [of "artists soup" "titles soup"]
    by (simp add: download_lastfm_pl_def Let_def emit_def)
next
  assume "length artist_names = length track_titles \<and> artist_names \<noteq> []"
  then show "length (lastfm_track_list artist_names track_titles) = length artist_names"
    by (simp add: lastfm_track_list_nth)
next
  assume "length artist_names = length track_titles \<and> artist_names \<noteq> []"
  then show "\<forall>i < length artist_names.
              lastfm_track_list artist_names track_titles ! i
                = artist_names ! i @ '' '' @ track_titles ! i"
    by (simp add: lastfm_track_list_nth)
next
  assume h: "http_get E playlist_url = Inr soup
        \<and> length (artists soup) = length (titles soup) \<and> artists soup \<noteq> []
        \<and> heading soup = Some h1 \<and> sanitize_filename E (JStr h1) = Inr pl_title"
  then have tl: "lastfm_track_list (artists soup) (titles soup)
      = map (\<lambda>i. artists soup ! i @ '' '' @ titles soup ! i) [0..<length (artists soup)]"
    by (simp add: lastfm_track_list_nth)
  have ne: "lastfm_track_list (artists soup) (titles soup) \<noteq> []"
    using h by (auto simp: lastfm_track_list_empty)
  show "download_lastfm_pl E self playlist_url s
           = (case for_each (lastfm_track E self (join (directory self) pl_title))
                     (map (\<lambda>i. artists soup ! i @ '' '' @ titles soup ! i)
                        [0..<length (artists soup)])
                     (s\<lparr>trace := trace s @
                          [HttpGet playlist_url,
                           Log (DownloadingPlaylist pl_title (length (artists soup)))]\<rparr>) of
                (Some e, s3) \<Rightarrow> (Some e, s3)
              | (None, s3) \<Rightarrow> (None, make_m3u E self (join (directory self) pl_title) s3))"
    using h ne unfolding download_lastfm_pl_def Let_def tl [symmetric]
    by (simp add: emit_def tl)
qed


lemma paired_search:
  assumes "3 \<le> length query"
  shows "search_by_type paired_env query ''track'' 1 True s
     = (Inr (Some [Url ''https://play.qobuz.com/track/5'']), emit (SearchCall ''track'' query 1) s)"
proof -
  have five: "show_int 5 = ''5''" and long: "show_int 200 = ''200''"
    by code_simp+
  show ?thesis
    using assms
    by (simp add: search_by_type_def search_possibles_def paired_env_def track_hit_def
        example_env_def and_then_def render_hit_def vformat_def get_field_def
        formatter_get_field_def format_field_def PartialFormatter_def WEB_URL_def five long)
qed

lemma track_five: "get_id ''https://play.qobuz.com/track/5'' = Inr ''5''"
  by code_simp

lemma paired_import:
  "download_lastfm_pl paired_env example_config lastfm_url empty_ledger = (None, after_import)"
proof -
  have dir: "join (directory example_config) ''Mix'' = ''Qobuz Downloads/Mix''"
    "join ''Qobuz Downloads'' ''Mix'' = ''Qobuz Downloads/Mix''"
    by (simp_all add: example_config_def join_def)
  have m3u: "make_m3u paired_env self ''Qobuz Downloads/Mix'' st = st" for self st
    by (simp add: make_m3u_def m3u_track_list_def os_walk_def paired_env_def example_env_def)
  have ok: "download_id_by_type paired_env i p a = None" for i p a
    by (simp add: paired_env_def example_env_def)
  have page: "http_get paired_env lastfm_url = Inr paired_page"
    "sanitize_filename paired_env (JStr ''Mix'') = Inr ''Mix''"
    "tree_at paired_env ''Qobuz Downloads/Mix'' = None"
    by (simp_all add: paired_env_def example_env_def)
  have pairs: "lastfm_track_list (artists paired_page) (titles paired_page)
      = [''Band Song'', ''Singer Tune'']"
    by (simp add: lastfm_track_list_def paired_page_def)
  have h1: "heading paired_page = Some ''Mix''"
    by (simp add: paired_page_def)
  show ?thesis
    unfolding download_lastfm_pl_def Let_def
    by (simp add: page pairs h1 dir lastfm_track_def paired_search track_five
        download_from_id_def handle_download_id_def ok path_or_def emit_def empty_ledger_def
        after_import_def m3u example_config_def)
qed

theorem lastfm_import_pairs_or_queues_nothing_witness:
  "http_get mismatched_env lastfm_url = Inr mismatched_page
   \<and> length (artists mismatched_page) = 5 \<and> length (titles mismatched_page) = 4
   \<and> download_lastfm_pl mismatched_env example_config lastfm_url empty_ledger
       = (None, empty_ledger\<lparr>trace := trace empty_ledger @ [HttpGet lastfm_url, Log NothingFound]\<rparr>)
   \<and> length [''Band'', ''Singer''] = length [''Song'', ''Tune'']
   \<and> length (lastfm_track_list [''Band'', ''Singer''] [''Song'', ''Tune'']) = 2
   \<and> lastfm_track_list [''Band'', ''Singer''] [''Song'', ''Tune''] ! 1 = ''Singer Tune''
   \<and> http_get paired_env lastfm_url = Inr paired_page
   \<and> heading paired_page = Some ''Mix''
   \<and> sanitize_filename paired_env (JStr ''Mix'') = Inr ''Mix''
   \<and> download_lastfm_pl paired_env example_config lastfm_url empty_ledger = (None, after_import)
   \<and> (case for_each (lastfm_track paired_env example_config (join (directory example_config) ''Mix''))
               (map (\<lambda>i. artists paired_page ! i @ '' '' @ titles paired_page ! i)
                  [0..<length (artists paired_page)])
               (empty_ledger\<lparr>trace := trace empty_ledger @
                  [HttpGet lastfm_url,
                   Log (DownloadingPlaylist ''Mix'' (length (artists paired_page)))]\<rparr>) of
          (Some e, s3) \<Rightarrow> (Some e, s3)
        | (None, s3) \<Rightarrow>
            (None, make_m3u paired_env example_config (join (directory example_config) ''Mix'') s3))
       = (None, after_import)"
proof -
  have page: "http_get mismatched_env lastfm_url = Inr mismatched_page"
    by (simp add: mismatched_env_def)
  have lens: "length (artists mismatched_page) = 5 \<and> length (titles mismatched_page) = 4"
    by (simp add: mismatched_page_def)
  have paired: "http_get paired_env lastfm_url = Inr paired_page
      \<and> heading paired_page = Some ''Mix''
      \<and> sanitize_filename paired_env (JStr ''Mix'') = Inr ''Mix''
      \<and> length (artists paired_page) = length (titles paired_page) \<and> artists paired_page \<noteq> []"
    by (simp add: paired_env_def paired_page_def example_env_def)
  note one = lastfm_import_pairs_or_queues_nothing
    [where E = mismatched_env and playlist_url = lastfm_url and soup = mismatched_page
       and self = example_config and s = empty_ledger, THEN conjunct1]
  note two = lastfm_import_pairs_or_queues_nothing
    [where artist_names = "[''Band'', ''Singer'']" and track_titles = "[''Song'', ''Tune'']",
     THEN conjunct2, THEN conjunct1]
  note three = lastfm_import_pairs_or_queues_nothing
    [where E = paired_env and playlist_url = lastfm_url and soup = paired_page
       and self = example_config and s = empty_ledger and ?h1.0 = "''Mix''" and pl_title = "''Mix''",
     THEN conjunct2, THEN conjunct2]
  from one page lens
  have a: "download_lastfm_pl mismatched_env example_config lastfm_url empty_ledger
       = (None, empty_ledger\<lparr>trace := trace empty_ledger @ [HttpGet lastfm_url, Log NothingFound]\<rparr>)"
    by simp
  from two
  have b: "length (lastfm_track_list [''Band'', ''Singer''] [''Song'', ''Tune'']) = 2
      \<and> lastfm_track_list [''Band'', ''Singer''] [''Song'', ''Tune''] ! 1 = ''Singer Tune''"
    by simp
  from three paired paired_import
  have c: "(case for_each (lastfm_track paired_env example_config (join (directory example_config) ''Mix''))
               (map (\<lambda>i. artists paired_page ! i @ '' '' @ titles paired_page ! i)
                  [0..<length (artists paired_page)])
               (empty_ledger\<lparr>trace := trace empty_ledger @
                  [HttpGet lastfm_url,
                   Log (DownloadingPlaylist ''Mix'' (length (artists paired_page)))]\<rparr>) of
          (Some e, s3) \<Rightarrow> (Some e, s3)
        | (None, s3) \<Rightarrow>
            (None, make_m3u paired_env example_config (join (directory example_config) ''Mix'') s3))
       = (None, after_import)"
    by simp
  from page lens a b paired paired_import c show ?thesis
    by simp
qed

end
